theory Spec2Isabelle
  imports Main
begin

section \<open>The loaded document\<close>

text \<open>
  The generator works on the value returned by \<^verbatim>\<open>json.load\<close>: nested Python dicts,
  lists, strings, numbers, booleans and \<^verbatim>\<open>None\<close>. A dict is an association list in
  insertion order (the order \<^verbatim>\<open>items()\<close> yields); \<^verbatim>\<open>json.load\<close> never produces a
  repeated key, and lookups take the first binding. Numbers are integers; strings are
  lists of ASCII characters.
\<close>

datatype json =
    JNull
  | JBool bool
  | JNum int
  | JStr string
  | JArr "json list"
  | JObj "(string \<times> json) list"

text \<open>The exceptions the parsing code can raise.\<close>

datatype error = TypeError | KeyError | AttributeError | IndexError

definition bindE :: "error + 'a \<Rightarrow> ('a \<Rightarrow> error + 'b) \<Rightarrow> error + 'b" where
  "bindE m f = (case m of Inl e \<Rightarrow> Inl e | Inr x \<Rightarrow> f x)"

subsection \<open>Python operations on loaded values\<close>

fun substring :: "string \<Rightarrow> string \<Rightarrow> bool" where
  "substring k [] = (k = [])"
| "substring k (c # cs) = (take (length k) (c # cs) = k \<or> substring k cs)"

text \<open>\<^verbatim>\<open>k in x\<close> for a string \<open>k\<close>: key membership on a dict, element membership on a
  list, substring test on a string, \<^verbatim>\<open>TypeError\<close> otherwise.\<close>

fun py_in :: "string \<Rightarrow> json \<Rightarrow> error + bool" where
  "py_in k (JObj kvs) = Inr (k \<in> fst ` set kvs)"
| "py_in k (JArr xs) = Inr (JStr k \<in> set xs)"
| "py_in k (JStr s) = Inr (substring k s)"
| "py_in k _ = Inl TypeError"

text \<open>\<^verbatim>\<open>x[k]\<close> for a string \<open>k\<close>.\<close>

fun py_getitem :: "json \<Rightarrow> string \<Rightarrow> error + json" where
  "py_getitem (JObj kvs) k = (case map_of kvs k of None \<Rightarrow> Inl KeyError | Some v \<Rightarrow> Inr v)"
| "py_getitem _ k = Inl TypeError"

text \<open>\<^verbatim>\<open>x.get(k, d)\<close>; only a dict has the method.\<close>

fun py_get :: "json \<Rightarrow> string \<Rightarrow> json \<Rightarrow> error + json" where
  "py_get (JObj kvs) k d = Inr (case map_of kvs k of None \<Rightarrow> d | Some v \<Rightarrow> v)"
| "py_get _ k d = Inl AttributeError"

text \<open>\<^verbatim>\<open>x.items()\<close>.\<close>

fun py_items :: "json \<Rightarrow> error + (string \<times> json) list" where
  "py_items (JObj kvs) = Inr kvs"
| "py_items _ = Inl AttributeError"

text \<open>\<^verbatim>\<open>for a in x\<close>: the elements of a list, the keys of a dict, the characters of a
  string.\<close>

fun py_iter :: "json \<Rightarrow> error + json list" where
  "py_iter (JArr xs) = Inr xs"
| "py_iter (JObj kvs) = Inr (map (\<lambda>kv. JStr (fst kv)) kvs)"
| "py_iter (JStr s) = Inr (map (\<lambda>c. JStr [c]) s)"
| "py_iter _ = Inl TypeError"

text \<open>Truth value of a loaded value (\<^verbatim>\<open>if not x\<close>, \<^verbatim>\<open>x or y\<close>).\<close>

fun truthy :: "json \<Rightarrow> bool" where
  "truthy JNull = False"
| "truthy (JBool b) = b"
| "truthy (JNum n) = (n \<noteq> 0)"
| "truthy (JStr s) = (s \<noteq> [])"
| "truthy (JArr xs) = (xs \<noteq> [])"
| "truthy (JObj kvs) = (kvs \<noteq> [])"

text \<open>\<^verbatim>\<open>set(x)\<close>: the elements of the iterable; a list or dict element is unhashable.
  The set is kept as the list of its elements, only membership is ever asked.\<close>

fun unhashable :: "json \<Rightarrow> bool" where
  "unhashable (JArr xs) = True"
| "unhashable (JObj kvs) = True"
| "unhashable _ = False"

definition py_set :: "json \<Rightarrow> error + json list" where
  "py_set x = bindE (py_iter x) (\<lambda>xs. if list_ex unhashable xs then Inl TypeError else Inr xs)"

text \<open>\<^verbatim>\<open>s.split(d)\<close> on a string: always at least one piece.\<close>

fun split_on :: "char \<Rightarrow> string \<Rightarrow> string list" where
  "split_on d [] = [[]]"
| "split_on d (c # cs) =
     (if c = d then [] # split_on d cs
      else (case split_on d cs of [] \<Rightarrow> [[c]] | p # ps \<Rightarrow> (c # p) # ps))"

fun py_split :: "json \<Rightarrow> error + string list" where
  "py_split (JStr s) = Inr (split_on CHR ''/'' s)"
| "py_split _ = Inl AttributeError"

text \<open>\<^verbatim>\<open>sep.join(xs)\<close>.\<close>

fun join :: "string \<Rightarrow> string list \<Rightarrow> string" where
  "join sep [] = []"
| "join sep [x] = x"
| "join sep (x # y # ys) = x @ sep @ join sep (y # ys)"

section \<open>Naming utility\<close>

text \<open>Character classes of the regular expressions, on ASCII.\<close>

definition is_upper :: "char \<Rightarrow> bool" where
  "is_upper c = (65 \<le> (of_char c :: nat) \<and> (of_char c :: nat) \<le> 90)"

definition is_lower :: "char \<Rightarrow> bool" where
  "is_lower c = (97 \<le> (of_char c :: nat) \<and> (of_char c :: nat) \<le> 122)"

definition is_digit :: "char \<Rightarrow> bool" where
  "is_digit c = (48 \<le> (of_char c :: nat) \<and> (of_char c :: nat) \<le> 57)"

definition is_word :: "char \<Rightarrow> bool" where
  "is_word c = (is_upper c \<or> is_lower c \<or> is_digit c \<or> c = CHR ''_'')"

definition is_space :: "char \<Rightarrow> bool" where
  "is_space c = ((9 \<le> (of_char c :: nat) \<and> (of_char c :: nat) \<le> 13)
     \<or> (28 \<le> (of_char c :: nat) \<and> (of_char c :: nat) \<le> 32))"

definition to_lower :: "char \<Rightarrow> char" where
  "to_lower c = (if is_upper c then char_of ((of_char c :: nat) + 32) else c)"

definition to_upper :: "char \<Rightarrow> char" where
  "to_upper c = (if is_lower c then char_of ((of_char c :: nat) - 32) else c)"

definition lower :: "string \<Rightarrow> string" where
  "lower s = map to_lower s"

text \<open>\<^verbatim>\<open>s.strip("_")\<close> and \<^verbatim>\<open>s.strip()\<close>.\<close>

definition strip_by :: "(char \<Rightarrow> bool) \<Rightarrow> string \<Rightarrow> string" where
  "strip_by P s = rev (dropWhile P (rev (dropWhile P s)))"

text \<open>\<^verbatim>\<open>re.sub("(.)([A-Z][a-z]+)", r"\1_\2", s)\<close>: scanning from the left, a character
  other than newline followed by an upper-case letter and a maximal non-empty run of
  lower-case letters gets an underscore after it; the scan resumes after the run.\<close>

function (sequential) sub_word_start :: "string \<Rightarrow> string" where
  "sub_word_start (c # u # l # rest) =
     (if c \<noteq> CHR 0x0A \<and> is_upper u \<and> is_lower l
      then c # CHR ''_'' # u # l # takeWhile is_lower rest
             @ sub_word_start (dropWhile is_lower rest)
      else c # sub_word_start (u # l # rest))"
| "sub_word_start s = s"
  by pat_completeness auto
termination
  by (relation "measure length") (auto simp: le_imp_less_Suc length_dropWhile_le less_Suc_eq_le le_SucI)

text \<open>\<^verbatim>\<open>re.sub("([a-z0-9])([A-Z])", r"\1_\2", s)\<close>.\<close>

fun sub_lower_upper :: "string \<Rightarrow> string" where
  "sub_lower_upper (c # u # rest) =
     (if (is_lower c \<or> is_digit c) \<and> is_upper u
      then c # CHR ''_'' # u # sub_lower_upper rest
      else c # sub_lower_upper (u # rest))"
| "sub_lower_upper s = s"

text \<open>\<^verbatim>\<open>re.sub(r"[^\w]+", "_", s)\<close>: every maximal run of non-word characters becomes
  one underscore.\<close>

function sub_non_word :: "string \<Rightarrow> string" where
  "sub_non_word [] = []"
| "sub_non_word (c # rest) =
     (if is_word c then c # sub_non_word rest
      else CHR ''_'' # sub_non_word (dropWhile (\<lambda>x. \<not> is_word x) rest))"
  by pat_completeness auto
termination
  by (relation "measure length") (auto simp: le_imp_less_Suc length_dropWhile_le)

definition snake_case :: "string \<Rightarrow> string" where
  "snake_case s =
     (let s1 = sub_word_start s;
          s2 = sub_lower_upper s1
      in strip_by (\<lambda>c. c = CHR ''_'') (lower (sub_non_word s2)))"

text \<open>\<^verbatim>\<open>word.capitalize()\<close>: first character upper-cased, the rest lower-cased.\<close>

fun capitalize :: "string \<Rightarrow> string" where
  "capitalize [] = []"
| "capitalize (c # cs) = to_upper c # lower cs"

definition is_sep :: "char \<Rightarrow> bool" where
  "is_sep c = (c = CHR ''_'' \<or> c = CHR ''-'' \<or> is_space c)"

text \<open>\<^verbatim>\<open>re.split(r"[_\-\s]+", s)\<close>: the pieces between maximal runs of separators; the
  first or last piece is empty when the string starts or ends with a separator.\<close>

function re_split_seps :: "string \<Rightarrow> string list" where
  "re_split_seps s =
     (let w = takeWhile (\<lambda>c. \<not> is_sep c) s; r = dropWhile (\<lambda>c. \<not> is_sep c) s
      in if r = [] then [w] else w # re_split_seps (dropWhile is_sep r))"
  by pat_completeness auto
termination
proof (relation "measure length", simp)
  fix s :: string and w r
  assume r: "r = dropWhile (\<lambda>c. \<not> is_sep c) s" and ne: "r \<noteq> []"
  from ne obtain c cs where rc: "r = c # cs" by (cases r) auto
  have "dropWhile (\<lambda>c. \<not> is_sep c) s = c # cs" using r rc by simp
  then have "is_sep c" by (simp add: dropWhile_eq_Cons_conv)
  then have "dropWhile is_sep r = dropWhile is_sep cs" using rc by simp
  then have "length (dropWhile is_sep r) \<le> length cs" by (simp add: length_dropWhile_le)
  also have "length cs < length r" using rc by simp
  also have "length r \<le> length s" using r by (simp add: length_dropWhile_le)
  finally show "(dropWhile is_sep r, s) \<in> measure length" by simp
qed

definition pascal_case :: "string \<Rightarrow> string" where
  "pascal_case s = concat (map capitalize (re_split_seps s))"

definition kebab_case :: "string \<Rightarrow> string" where
  "kebab_case s = map (\<lambda>c. if c = CHR ''_'' then CHR ''-'' else c) (snake_case s)"

text \<open>\<^verbatim>\<open>sanitize_name\<close>: drop every character that is not a word character, white space
  or a hyphen; strip white space; an empty result is replaced by \<^verbatim>\<open>"default"\<close>; then
  snake-case.\<close>

definition sanitize_name :: "string \<Rightarrow> string" where
  "sanitize_name name0 =
     (let name1 = filter (\<lambda>c. is_word c \<or> is_space c \<or> c = CHR ''-'') name0;
          name2 = strip_by is_space name1;
          name3 = (if name2 = [] then ''default'' else name2)
      in snake_case name3)"

lemma bindE_simps [simp]:
  "bindE (Inl e) f = Inl e"
  "bindE (Inr x) f = f x"
  by (simp_all add: bindE_def)

lemma bindE_cong [fundef_cong]:
  "m = m' \<Longrightarrow> (\<And>x. m' = Inr x \<Longrightarrow> f x = f' x) \<Longrightarrow> bindE m f = bindE m' f'"
  by (auto simp: bindE_def split: sum.splits)

section \<open>Type resolver\<close>

text \<open>Measures for the recursion of the resolver: a value taken out of a dict or list
  weighs less than its container, and so do the pieces an iteration yields.\<close>

fun weight :: "json \<Rightarrow> nat" where
  "weight (JStr s) = Suc (length s)"
| "weight (JArr xs) = Suc (sum_list (map (\<lambda>x. Suc (weight x)) xs))"
| "weight (JObj kvs) = Suc (sum_list (map (\<lambda>kv. Suc (weight (snd kv))) kvs))"
| "weight _ = 0"

fun hint_measure :: "json \<Rightarrow> nat" where
  "hint_measure (JStr s) = 0"
| "hint_measure x = weight x"

lemma weight_hint_le: "hint_measure x \<le> weight x"
  by (cases x) auto

lemma map_of_weight: "map_of kvs k = Some v \<Longrightarrow> weight v < sum_list (map (\<lambda>kv. Suc (weight (snd kv))) kvs)"
  by (induction kvs) (auto split: if_splits)

lemma py_getitem_weight: "py_getitem s k = Inr v \<Longrightarrow> Suc (weight v) < hint_measure s"
  by (cases s) (auto split: option.splits dest: map_of_weight)

lemma py_get_weight: "py_get s k d = Inr v \<Longrightarrow> v = d \<or> Suc (weight v) < hint_measure s"
  by (cases s) (auto split: option.splits dest: map_of_weight)

lemma py_iter_weight: "py_iter x = Inr xs \<Longrightarrow> sum_list (map (\<lambda>x. Suc (hint_measure x)) xs) < weight x"
proof (cases x)
  case (JArr ys)
  assume "py_iter x = Inr xs"
  with JArr have "xs = ys" by simp
  moreover have "sum_list (map (\<lambda>x. Suc (hint_measure x)) ys) \<le> sum_list (map (\<lambda>x. Suc (weight x)) ys)"
    by (rule sum_list_mono) (simp add: weight_hint_le)
  ultimately show ?thesis using JArr by simp
next
  case (JObj kvs)
  assume "py_iter x = Inr xs"
  with JObj have xs: "xs = map (\<lambda>kv. JStr (fst kv)) kvs" by simp
  have "sum_list (map (\<lambda>x. Suc (hint_measure x)) xs) = length kvs"
    unfolding xs by (induction kvs) auto
  moreover have "length kvs \<le> sum_list (map (\<lambda>kv. Suc (weight (snd kv))) kvs)"
    by (induction kvs) auto
  ultimately show ?thesis using JObj by simp
next
  case (JStr s)
  assume "py_iter x = Inr xs"
  with JStr have xs: "xs = map (\<lambda>c. JStr [c]) s" by simp
  have "sum_list (map (\<lambda>x. Suc (hint_measure x)) xs) = length s"
    unfolding xs by (induction s) auto
  then show ?thesis using JStr by simp
qed auto

text \<open>The tail of \<^verbatim>\<open>_get_type_hint\<close>: \<^verbatim>\<open>if not required: type_str = f"{type_str} | None"\<close>.\<close>

definition optional :: "bool \<Rightarrow> string \<Rightarrow> string" where
  "optional required type_str = (if required then type_str else type_str @ '' | None'')"

text \<open>\<^verbatim>\<open>_get_type_hint\<close>, branch by branch in the order of the source; the list
  comprehension over the members of a \<^verbatim>\<open>oneOf\<close>/\<^verbatim>\<open>anyOf\<close> is \<open>get_type_hints\<close>.\<close>

function get_type_hint :: "json \<Rightarrow> bool \<Rightarrow> error + string"
  and get_type_hints :: "json list \<Rightarrow> error + string list"
where
  "get_type_hint schema required =
     bindE (py_in ''$ref'' schema) (\<lambda>has_ref.
     if has_ref then
       bindE (py_getitem schema ''$ref'') (\<lambda>r.
       bindE (py_split r) (\<lambda>parts.
       Inr (optional required (last parts))))
     else
     bindE (py_in ''allOf'' schema) (\<lambda>has_allOf.
     if has_allOf then
       bindE (py_getitem schema ''allOf'') (\<lambda>members.
       bindE (py_iter members) (\<lambda>items.
       case items of
         item # _ \<Rightarrow> get_type_hint item required
       | [] \<Rightarrow> Inr (optional required ''Any'')))
     else
     bindE (py_in ''oneOf'' schema) (\<lambda>has_oneOf.
     bindE (if has_oneOf then Inr True else py_in ''anyOf'' schema) (\<lambda>has_union.
     if has_union then
       bindE (py_get schema ''oneOf'' JNull) (\<lambda>one.
       bindE (if truthy one then Inr one else py_get schema ''anyOf'' (JArr [])) (\<lambda>alts.
       bindE (py_iter alts) (\<lambda>items.
       bindE (get_type_hints items) (\<lambda>types.
       Inr (optional required (join '' | '' types))))))
     else
     bindE (py_in ''type'' schema) (\<lambda>has_type.
     if \<not> has_type then Inr (optional required ''Any'')
     else
     bindE (py_getitem schema ''type'') (\<lambda>ty.
     if ty = JStr ''string'' then
       bindE (py_in ''enum'' schema) (\<lambda>has_enum.
       if has_enum then Inr (optional required ''str'')
       else
       bindE (py_get schema ''format'' JNull) (\<lambda>fmt.
       if fmt = JStr ''date-time'' then Inr (optional required ''datetime'')
       else if fmt = JStr ''date'' then Inr (optional required ''date'')
       else if fmt = JStr ''binary'' then Inr (optional required ''bytes'')
       else Inr (optional required ''str'')))
     else if ty = JStr ''integer'' then Inr (optional required ''int'')
     else if ty = JStr ''number'' then Inr (optional required ''float'')
     else if ty = JStr ''boolean'' then Inr (optional required ''bool'')
     else if ty = JStr ''array'' then
       bindE (py_get schema ''items'' (JObj [])) (\<lambda>items.
       bindE (get_type_hint items True) (\<lambda>item_type.
       Inr (optional required (''list['' @ item_type @ '']''))))
     else if ty = JStr ''object'' then
       bindE (py_in ''additionalProperties'' schema) (\<lambda>has_ap.
       if has_ap then
         bindE (py_getitem schema ''additionalProperties'') (\<lambda>ap.
         bindE (get_type_hint ap True) (\<lambda>value_type.
         Inr (optional required (''dict[str, '' @ value_type @ '']''))))
       else Inr (optional required ''dict[str, Any]''))
     else Inr (optional required ''Any'')))))))"
| "get_type_hints [] = Inr []"
| "get_type_hints (item # items) =
     bindE (get_type_hint item True) (\<lambda>t.
     bindE (get_type_hints items) (\<lambda>ts. Inr (t # ts)))"
  by pat_completeness auto

termination
proof (relation "measure (\<lambda>a. case a of Inl (s, r) \<Rightarrow> hint_measure s
                                  | Inr xs \<Rightarrow> sum_list (map (\<lambda>x. Suc (hint_measure x)) xs))",
       goal_cases)
  case 1 show ?case by simp
next
  case (2 schema required has_ref has_allOf members items item rest)
  have "py_iter members = Inr items" by fact
  moreover have "items = item # rest" by fact
  ultimately have "hint_measure item < weight members" using py_iter_weight[of members items] by simp
  moreover have "py_getitem schema ''allOf'' = Inr members" by fact
  ultimately show ?case using py_getitem_weight[of schema "''allOf''" members] by simp
next
  case (3 schema required has_ref has_allOf has_oneOf has_union one alts items)
  have one: "py_get schema ''oneOf'' JNull = Inr one" by fact
  have alts: "(if truthy one then Inr one else py_get schema ''anyOf'' (JArr [])) = Inr alts" by fact
  have "alts = JArr [] \<or> Suc (weight alts) < hint_measure schema"
  proof (cases "truthy one")
    case True
    with alts have "alts = one" by simp
    moreover from True have "one \<noteq> JNull" by auto
    ultimately show ?thesis using py_get_weight[OF one] by simp
  next
    case False
    with alts show ?thesis by (simp add: py_get_weight)
  qed
  then show ?case
  proof
    assume "alts = JArr []"
    moreover have "py_iter alts = Inr items" by fact
    ultimately have "items = []" by simp
    moreover have "0 < hint_measure schema" using one by (cases schema) auto
    ultimately show ?thesis by simp
  next
    assume "Suc (weight alts) < hint_measure schema"
    moreover have "py_iter alts = Inr items" by fact
    ultimately show ?thesis using py_iter_weight[of alts items] by simp
  qed
next
  case (4 schema required has_ref has_allOf has_oneOf has_union has_type ty items)
  have "py_getitem schema ''type'' = Inr ty" by fact
  then have "Suc (weight ty) < hint_measure schema" by (rule py_getitem_weight)
  moreover have "py_get schema ''items'' (JObj []) = Inr items" by fact
  then have "items = JObj [] \<or> Suc (weight items) < hint_measure schema"
    by (rule py_get_weight)
  ultimately show ?case using weight_hint_le[of items] by auto
next
  case (5 schema required has_ref has_allOf has_oneOf has_union has_type ty has_ap ap)
  have "py_getitem schema ''additionalProperties'' = Inr ap" by fact
  then have "Suc (weight ap) < hint_measure schema" by (rule py_getitem_weight)
  then show ?case using weight_hint_le[of ap] by auto
next
  case 6 then show ?case by simp
next
  case 7 then show ?case by simp
qed

declare get_type_hint.simps(1) [simp del]

section \<open>The intermediate representation\<close>

text \<open>The dataclasses of the generator. A field that receives a value read from the
  document without conversion (a declared \<^verbatim>\<open>required\<close> flag, a default, a description,
  the enum literals, a class-name override) holds that value as it is; \<^verbatim>\<open>None\<close> is
  \<open>JNull\<close>. Field names carry a prefix for their dataclass (\<open>p_\<close>, \<open>ep_\<close>, \<open>m_\<close>,
  \<open>en_\<close>, \<open>ent_\<close>).\<close>

record PropertyInfo =
  p_name :: string
  p_python_name :: string
  p_type_hint :: string
  p_required :: json
  p_default :: json
  p_description :: json
  p_enum_values :: json
  p_is_body :: bool

record EndpointInfo =
  ep_name :: string
  ep_python_name :: string
  ep_method :: string
  ep_path :: string
  ep_summary :: json
  ep_description :: json
  ep_tag :: string
  ep_parameters :: "PropertyInfo list"
  ep_body :: "PropertyInfo option"
  ep_response_type :: string

record ModelInfo =
  m_name :: string
  m_python_name :: string
  m_properties :: "PropertyInfo list"
  m_description :: json

text \<open>The label \<^verbatim>\<open>snake_case(str(v)).upper()\<close> paired with each enum literal is not part
  of this record; the literals are.\<close>

record EnumInfo =
  en_name :: string
  en_python_name :: string
  en_values :: "json list"
  en_description :: json

record EntityInfo =
  ent_name :: json
  ent_schema_name :: string
  ent_properties :: "PropertyInfo list"
  ent_description :: json

text \<open>The parsed data owned by \<^verbatim>\<open>WAHAGenerator\<close>; \<open>endpoints\<close> is the dict from tag to
  endpoint list, in insertion order.\<close>

record generator =
  endpoints :: "(string \<times> EndpointInfo list) list"
  models :: "ModelInfo list"
  enums :: "EnumInfo list"
  entities :: "EntityInfo list"

definition init_generator :: generator where
  "init_generator = \<lparr>endpoints = [], models = [], enums = [], entities = []\<rparr>"

section \<open>Property parsing\<close>

definition python_keywords :: "string list" where
  "python_keywords = [''from'', ''import'', ''class'', ''def'', ''return'', ''type'']"

definition python_name_of :: "string \<Rightarrow> string" where
  "python_name_of name0 =
     (let python_name = snake_case name0
      in if python_name \<in> set python_keywords then python_name @ ''_'' else python_name)"

definition parse_property :: "string \<Rightarrow> json \<Rightarrow> bool \<Rightarrow> error + PropertyInfo" where
  "parse_property name0 schema required =
     bindE (get_type_hint schema required) (\<lambda>type_hint.
     bindE (py_get schema ''default'' JNull) (\<lambda>default_value.
     bindE (py_get schema ''description'' (JStr [])) (\<lambda>description.
     bindE (py_get schema ''enum'' JNull) (\<lambda>enum_values.
     Inr \<lparr>p_name = name0,
          p_python_name = python_name_of name0,
          p_type_hint = type_hint,
          p_required = JBool required,
          p_default = default_value,
          p_description = description,
          p_enum_values = enum_values,
          p_is_body = False\<rparr>))))"

text \<open>The loop \<^verbatim>\<open>for prop_name, prop_schema in ....items(): props.append(...)\<close>, shared by
  the schema parser and the entity parser: \<open>required_fields\<close> is the set at the time
  the loop runs.\<close>

fun parse_properties ::
  "(string \<times> json) list \<Rightarrow> json list \<Rightarrow> PropertyInfo list \<Rightarrow> error + PropertyInfo list" where
  "parse_properties [] required_fields props = Inr props"
| "parse_properties ((prop_name, prop_schema) # rest) required_fields props =
     bindE (parse_property prop_name prop_schema (JStr prop_name \<in> set required_fields)) (\<lambda>p.
     parse_properties rest required_fields (props @ [p]))"

section \<open>Schema parser\<close>

text \<open>The loop over the members of an \<^verbatim>\<open>allOf\<close>: the member's properties are parsed
  against the current \<open>required_fields\<close>, and only then is the member's own
  \<^verbatim>\<open>required\<close> list added to the set.\<close>

fun merge_all_of ::
  "json list \<Rightarrow> json list \<Rightarrow> PropertyInfo list \<Rightarrow> error + (PropertyInfo list \<times> json list)" where
  "merge_all_of [] required_fields props = Inr (props, required_fields)"
| "merge_all_of (item # items) required_fields props =
     bindE (py_in ''properties'' item) (\<lambda>has_props.
     bindE (if has_props then
              bindE (py_getitem item ''properties'') (\<lambda>ps.
              bindE (py_items ps) (\<lambda>kvs.
              parse_properties kvs required_fields props))
            else Inr props) (\<lambda>props1.
     bindE (py_get item ''required'' (JArr [])) (\<lambda>req.
     bindE (py_set req) (\<lambda>more.
     merge_all_of items (required_fields @ more) props1))))"

text \<open>The body of the loop of \<^verbatim>\<open>_parse_schemas\<close> for one named schema.\<close>

definition parse_schema :: "string \<Rightarrow> json \<Rightarrow> generator \<Rightarrow> error + generator" where
  "parse_schema name0 schema g =
     bindE (py_in ''enum'' schema) (\<lambda>is_enum.
     if is_enum then
       bindE (py_getitem schema ''enum'') (\<lambda>lits.
       bindE (py_iter lits) (\<lambda>values.
       bindE (py_get schema ''description'' (JStr [])) (\<lambda>description.
       Inr (g\<lparr>enums := enums g @
              [\<lparr>en_name = name0, en_python_name = name0, en_values = values,
                en_description = description\<rparr>]\<rparr>))))
     else
     bindE (py_get schema ''type'' JNull) (\<lambda>ty.
     bindE (if ty = JStr ''object'' then Inr True
            else bindE (py_in ''properties'' schema) (\<lambda>has_props.
                 if has_props then Inr True else py_in ''allOf'' schema)) (\<lambda>is_model.
     if \<not> is_model then Inr g
     else
     bindE (py_get schema ''required'' (JArr [])) (\<lambda>req.
     bindE (py_set req) (\<lambda>required_fields.
     bindE (py_in ''allOf'' schema) (\<lambda>has_allOf.
     bindE (if has_allOf then
              bindE (py_getitem schema ''allOf'') (\<lambda>members.
              bindE (py_iter members) (\<lambda>items.
              merge_all_of items required_fields []))
            else Inr ([], required_fields)) (\<lambda>merged.
     bindE (py_get schema ''properties'' (JObj [])) (\<lambda>own.
     bindE (py_items own) (\<lambda>kvs.
     bindE (parse_properties kvs (snd merged) (fst merged)) (\<lambda>props.
     bindE (py_get schema ''description'' (JStr [])) (\<lambda>description.
     Inr (g\<lparr>models := models g @
            [\<lparr>m_name = name0, m_python_name = name0, m_properties = props,
              m_description = description\<rparr>]\<rparr>))))))))))))"

fun parse_schemas_loop :: "(string \<times> json) list \<Rightarrow> generator \<Rightarrow> error + generator" where
  "parse_schemas_loop [] g = Inr g"
| "parse_schemas_loop ((name0, schema) # rest) g =
     bindE (parse_schema name0 schema g) (\<lambda>g1. parse_schemas_loop rest g1)"

text \<open>\<^verbatim>\<open>self.spec.get("components", {}).get("schemas", {})\<close>.\<close>

definition component_schemas :: "json \<Rightarrow> error + json" where
  "component_schemas spec =
     bindE (py_get spec ''components'' (JObj [])) (\<lambda>components.
     py_get components ''schemas'' (JObj []))"

definition parse_schemas :: "json \<Rightarrow> generator \<Rightarrow> error + generator" where
  "parse_schemas spec g =
     bindE (component_schemas spec) (\<lambda>schemas.
     bindE (py_items schemas) (\<lambda>kvs.
     parse_schemas_loop kvs g))"

section \<open>Endpoint parser\<close>

text \<open>A value handed to \<^verbatim>\<open>re.sub\<close> (by \<^verbatim>\<open>snake_case\<close> or \<^verbatim>\<open>sanitize_name\<close>) must be
  a string.\<close>

fun as_str :: "json \<Rightarrow> error + string" where
  "as_str (JStr s) = Inr s"
| "as_str _ = Inl TypeError"

text \<open>Following the pieces of a reference path from the document root:
  \<^verbatim>\<open>for part in ref_path[1:]: param = param[part]\<close>.\<close>

fun follow :: "json \<Rightarrow> string list \<Rightarrow> error + json" where
  "follow x [] = Inr x"
| "follow x (part # parts) = bindE (py_getitem x part) (\<lambda>y. follow y parts)"

definition resolve_param :: "json \<Rightarrow> json \<Rightarrow> error + json" where
  "resolve_param spec param =
     bindE (py_in ''$ref'' param) (\<lambda>is_ref.
     if is_ref then
       bindE (py_getitem param ''$ref'') (\<lambda>r.
       bindE (py_split r) (\<lambda>ref_path.
       follow spec (tl ref_path)))
     else Inr param)"

text \<open>The rest of the loop body, on the parameter object after resolution.\<close>

definition build_param :: "json \<Rightarrow> error + PropertyInfo" where
  "build_param param =
     bindE (py_get param ''schema'' (JObj [(''type'', JStr ''string'')])) (\<lambda>schema.
     bindE (py_get param ''required'' (JBool False)) (\<lambda>declared.
     bindE (py_get param ''in'' JNull) (\<lambda>loc.
     let required = (if loc = JStr ''path'' then JBool True else declared) in
     bindE (py_getitem param ''name'') (\<lambda>nm.
     bindE (as_str nm) (\<lambda>name0.
     bindE (get_type_hint schema (truthy required)) (\<lambda>type_hint.
     bindE (py_get schema ''default'' JNull) (\<lambda>default_value.
     bindE (py_get param ''description'' (JStr [])) (\<lambda>description.
     bindE (py_get schema ''enum'' JNull) (\<lambda>enum_values.
     Inr \<lparr>p_name = name0,
          p_python_name = snake_case name0,
          p_type_hint = type_hint,
          p_required = required,
          p_default = default_value,
          p_description = description,
          p_enum_values = enum_values,
          p_is_body = False\<rparr>)))))))))"

definition parse_param :: "json \<Rightarrow> json \<Rightarrow> error + PropertyInfo" where
  "parse_param spec param = bindE (resolve_param spec param) build_param"

fun parse_params :: "json \<Rightarrow> json list \<Rightarrow> PropertyInfo list \<Rightarrow> error + PropertyInfo list" where
  "parse_params spec [] parameters = Inr parameters"
| "parse_params spec (param # rest) parameters =
     bindE (parse_param spec param) (\<lambda>prop.
     parse_params spec rest (parameters @ [prop]))"

definition parse_body :: "json \<Rightarrow> error + PropertyInfo option" where
  "parse_body operation =
     bindE (py_in ''requestBody'' operation) (\<lambda>has_body.
     if has_body then
       bindE (py_getitem operation ''requestBody'') (\<lambda>req_body.
       bindE (py_get req_body ''content'' (JObj [])) (\<lambda>content.
       bindE (py_in ''application/json'' content) (\<lambda>has_json.
       if has_json then
         bindE (py_getitem content ''application/json'') (\<lambda>media.
         bindE (py_get media ''schema'' (JObj [])) (\<lambda>schema.
         bindE (get_type_hint schema True) (\<lambda>type_hint.
         bindE (py_get req_body ''required'' (JBool True)) (\<lambda>required.
         bindE (py_get req_body ''description'' (JStr [])) (\<lambda>description.
         Inr (Some \<lparr>p_name = ''body'',
                    p_python_name = ''body'',
                    p_type_hint = type_hint,
                    p_required = required,
                    p_default = JNull,
                    p_description = description,
                    p_enum_values = JNull,
                    p_is_body = True\<rparr>))))))
       else Inr None)))
     else Inr None)"

text \<open>One round of the loop over the candidate status keys: \<open>Inr None\<close> when the round
  falls through to the next status (the key is absent, or its content has no
  \<^verbatim>\<open>application/json\<close> entry), \<open>Inr (Some schema)\<close> when the round reaches the
  \<^verbatim>\<open>break\<close>, with the schema it resolves (\<^verbatim>\<open>{}\<close> when the entry has no
  \<^verbatim>\<open>schema\<close> key).\<close>

definition json_schema_at :: "json \<Rightarrow> string \<Rightarrow> error + json option" where
  "json_schema_at responses status =
     bindE (py_in status responses) (\<lambda>present.
     if present then
       bindE (py_getitem responses status) (\<lambda>resp.
       bindE (py_get resp ''content'' (JObj [])) (\<lambda>content.
       bindE (py_in ''application/json'' content) (\<lambda>has_json.
       if has_json then
         bindE (py_getitem content ''application/json'') (\<lambda>media.
         bindE (py_get media ''schema'' (JObj [])) (\<lambda>schema.
         Inr (Some schema)))
       else Inr None)))
     else Inr None)"

fun response_loop :: "json \<Rightarrow> string list \<Rightarrow> error + string" where
  "response_loop responses [] = Inr ''Any''"
| "response_loop responses (status # rest) =
     bindE (json_schema_at responses status) (\<lambda>found.
     case found of
       Some schema \<Rightarrow> get_type_hint schema True
     | None \<Rightarrow> response_loop responses rest)"

definition parse_response_type :: "json \<Rightarrow> error + string" where
  "parse_response_type operation =
     bindE (py_get operation ''responses'' (JObj [])) (\<lambda>responses.
     response_loop responses [''200'', ''201'', ''default''])"

definition upper :: "string \<Rightarrow> string" where
  "upper s = map to_upper s"

definition parse_endpoint ::
  "json \<Rightarrow> string \<Rightarrow> string \<Rightarrow> json \<Rightarrow> string \<Rightarrow> error + EndpointInfo" where
  "parse_endpoint spec path method operation tag =
     bindE (py_get operation ''operationId'' (JStr (method @ ''_'' @ path))) (\<lambda>oid.
     bindE (as_str oid) (\<lambda>operation_id.
     bindE (py_get operation ''parameters'' (JArr [])) (\<lambda>ps.
     bindE (py_iter ps) (\<lambda>params.
     bindE (parse_params spec params []) (\<lambda>parameters.
     bindE (parse_body operation) (\<lambda>body.
     bindE (parse_response_type operation) (\<lambda>response_type.
     bindE (py_get operation ''summary'' (JStr [])) (\<lambda>summary.
     bindE (py_get operation ''description'' (JStr [])) (\<lambda>description.
     Inr \<lparr>ep_name = operation_id,
          ep_python_name = snake_case operation_id,
          ep_method = upper method,
          ep_path = path,
          ep_summary = summary,
          ep_description = description,
          ep_tag = tag,
          ep_parameters = parameters,
          ep_body = body,
          ep_response_type = response_type\<rparr>)))))))))"

text \<open>\<^verbatim>\<open>tags[0]\<close>: the first element of a list, the first character of a string; a dict
  of the document has no key \<^verbatim>\<open>0\<close>.\<close>

fun py_first :: "json \<Rightarrow> error + json" where
  "py_first (JArr (x # xs)) = Inr x"
| "py_first (JArr []) = Inl IndexError"
| "py_first (JStr (c # cs)) = Inr (JStr [c])"
| "py_first (JStr []) = Inl IndexError"
| "py_first (JObj kvs) = Inl KeyError"
| "py_first _ = Inl TypeError"

text \<open>\<^verbatim>\<open>tags = operation.get("tags", ["default"]); tag = sanitize_name(tags[0])\<close>.\<close>

definition operation_tag :: "json \<Rightarrow> error + string" where
  "operation_tag operation =
     bindE (py_get operation ''tags'' (JArr [JStr ''default''])) (\<lambda>tags.
     bindE (py_first tags) (\<lambda>t.
     bindE (as_str t) (\<lambda>s. Inr (sanitize_name s))))"

text \<open>\<^verbatim>\<open>if tag not in self.endpoints: self.endpoints[tag] = []\<close> and
  \<^verbatim>\<open>self.endpoints[tag].append(endpoint)\<close> on the insertion-ordered dict.\<close>

definition ensure_tag ::
  "string \<Rightarrow> (string \<times> EndpointInfo list) list \<Rightarrow> (string \<times> EndpointInfo list) list" where
  "ensure_tag tag eps = (if tag \<in> fst ` set eps then eps else eps @ [(tag, [])])"

fun append_endpoint ::
  "string \<Rightarrow> EndpointInfo \<Rightarrow> (string \<times> EndpointInfo list) list
     \<Rightarrow> error + (string \<times> EndpointInfo list) list" where
  "append_endpoint tag e [] = Inl KeyError"
| "append_endpoint tag e ((t, es) # rest) =
     (if t = tag then Inr ((t, es @ [e]) # rest)
      else bindE (append_endpoint tag e rest) (\<lambda>rest1. Inr ((t, es) # rest1)))"

definition http_methods :: "string list" where
  "http_methods = [''get'', ''post'', ''put'', ''patch'', ''delete'']"

text \<open>The inner loop of \<^verbatim>\<open>_parse_endpoints\<close> over the methods of one path item.\<close>

fun parse_methods ::
  "json \<Rightarrow> string \<Rightarrow> json \<Rightarrow> string list \<Rightarrow> generator \<Rightarrow> error + generator" where
  "parse_methods spec path path_item [] g = Inr g"
| "parse_methods spec path path_item (method # rest) g =
     bindE (py_in method path_item) (\<lambda>present.
     if \<not> present then parse_methods spec path path_item rest g
     else
     bindE (py_getitem path_item method) (\<lambda>operation.
     bindE (operation_tag operation) (\<lambda>tag.
     bindE (parse_endpoint spec path method operation tag) (\<lambda>endpoint.
     bindE (append_endpoint tag endpoint (ensure_tag tag (endpoints g))) (\<lambda>eps.
     parse_methods spec path path_item rest (g\<lparr>endpoints := eps\<rparr>))))))"

fun parse_paths :: "json \<Rightarrow> (string \<times> json) list \<Rightarrow> generator \<Rightarrow> error + generator" where
  "parse_paths spec [] g = Inr g"
| "parse_paths spec ((path, path_item) # rest) g =
     bindE (parse_methods spec path path_item http_methods g) (\<lambda>g1.
     parse_paths spec rest g1)"

definition parse_endpoints :: "json \<Rightarrow> generator \<Rightarrow> error + generator" where
  "parse_endpoints spec g =
     bindE (py_get spec ''paths'' (JObj [])) (\<lambda>paths.
     bindE (py_items paths) (\<lambda>kvs.
     parse_paths spec kvs g))"

section \<open>Entity parser\<close>

text \<open>The body of the loop of \<^verbatim>\<open>_parse_entities\<close> for one named schema.\<close>

definition parse_entity :: "string \<Rightarrow> json \<Rightarrow> generator \<Rightarrow> error + generator" where
  "parse_entity schema_name schema g =
     bindE (py_get schema ''x-waha-entity'' JNull) (\<lambda>entity_config.
     if \<not> truthy entity_config then Inr g
     else
     bindE (py_get entity_config ''class_name'' (JStr (pascal_case schema_name))) (\<lambda>class_name.
     bindE (py_get schema ''required'' (JArr [])) (\<lambda>req.
     bindE (py_set req) (\<lambda>required_fields.
     bindE (py_get schema ''properties'' (JObj [])) (\<lambda>own.
     bindE (py_items own) (\<lambda>kvs.
     bindE (parse_properties kvs required_fields []) (\<lambda>properties.
     bindE (py_get schema ''description'' (JStr [])) (\<lambda>description.
     Inr (g\<lparr>entities := entities g @
            [\<lparr>ent_name = class_name, ent_schema_name = schema_name,
              ent_properties = properties, ent_description = description\<rparr>]\<rparr>)))))))))"

fun parse_entities_loop :: "(string \<times> json) list \<Rightarrow> generator \<Rightarrow> error + generator" where
  "parse_entities_loop [] g = Inr g"
| "parse_entities_loop ((schema_name, schema) # rest) g =
     bindE (parse_entity schema_name schema g) (\<lambda>g1. parse_entities_loop rest g1)"

definition parse_entities :: "json \<Rightarrow> generator \<Rightarrow> error + generator" where
  "parse_entities spec g =
     bindE (component_schemas spec) (\<lambda>schemas.
     bindE (py_items schemas) (\<lambda>kvs.
     parse_entities_loop kvs g))"

text \<open>\<^verbatim>\<open>parse\<close>: schemas, then endpoints, then entities.\<close>

definition parse :: "json \<Rightarrow> error + generator" where
  "parse spec =
     bindE (parse_schemas spec init_generator) (\<lambda>g1.
     bindE (parse_endpoints spec g1) (\<lambda>g2.
     parse_entities spec g2))"

section \<open>Vocabulary of the statements and example documents\<close>

text \<open>A path parameter that declares \<^verbatim>\<open>required: false\<close>.\<close>

definition ex_path_param :: json where
  "ex_path_param =
     JObj [(''name'', JStr ''chatId''), (''in'', JStr ''path''), (''required'', JBool False)]"

definition ex_path_prop :: PropertyInfo where
  "ex_path_prop = \<lparr>p_name = ''chatId'', p_python_name = ''chat_id'', p_type_hint = ''str'',
     p_required = JBool True, p_default = JNull, p_description = JStr [], p_enum_values = JNull,
     p_is_body = False\<rparr>"

text \<open>A document with one shared parameter, and an operation parameter that refers to it.\<close>

definition ex_session_param :: "(string \<times> json) list" where
  "ex_session_param =
     [(''name'', JStr ''session''), (''in'', JStr ''query''),
      (''schema'', JObj [(''type'', JStr ''string''), (''default'', JStr ''default'')])]"

definition ex_spec_with_param :: json where
  "ex_spec_with_param =
     JObj [(''components'', JObj [(''parameters'', JObj [(''Session'', JObj ex_session_param)])])]"

definition ex_ref_param :: json where
  "ex_ref_param = JObj [(''$ref'', JStr ''#/components/parameters/Session'')]"

text \<open>An operation that declares a JSON response under both \<^verbatim>\<open>"201"\<close> and
  \<^verbatim>\<open>"200"\<close>, the former first.\<close>

definition ex_schema_ref :: "string \<Rightarrow> json" where
  "ex_schema_ref n = JObj [(''$ref'', JStr (''#/components/schemas/'' @ n))]"

definition ex_json_response :: "json \<Rightarrow> json" where
  "ex_json_response schema =
     JObj [(''content'', JObj [(''application/json'', JObj [(''schema'', schema)])])]"

definition ex_responses :: json where
  "ex_responses =
     JObj [(''201'', ex_json_response (ex_schema_ref ''Created'')),
           (''200'', ex_json_response (ex_schema_ref ''Session''))]"

definition ex_operation :: json where
  "ex_operation = JObj [(''operationId'', JStr ''startSession''), (''responses'', ex_responses)]"

text \<open>A schema marked as an entity, with a class-name override, a composition member
  and two properties of its own; and the same schema without the composition.\<close>

definition ex_group_schema :: "(string \<times> json) list" where
  "ex_group_schema =
     [(''type'', JStr ''object''),
      (''x-waha-entity'', JObj [(''class_name'', JStr ''Group'')]),
      (''allOf'', JArr [JObj [(''properties'', JObj [(''owner'', JObj [(''type'', JStr ''string'')])])]]),
      (''required'', JArr [JStr ''id'']),
      (''properties'', JObj [(''id'', JObj [(''type'', JStr ''string'')]),
                             (''from'', JObj [(''type'', JStr ''integer'')])])]"

definition ex_group_props :: "PropertyInfo list" where
  "ex_group_props =
     [\<lparr>p_name = ''id'', p_python_name = ''id'', p_type_hint = ''str'', p_required = JBool True,
       p_default = JNull, p_description = JStr [], p_enum_values = JNull, p_is_body = False\<rparr>,
      \<lparr>p_name = ''from'', p_python_name = ''from_'', p_type_hint = ''int | None'',
       p_required = JBool False, p_default = JNull, p_description = JStr [],
       p_enum_values = JNull, p_is_body = False\<rparr>]"

definition ex_group_plain :: "(string \<times> json) list" where
  "ex_group_plain =
     [(''type'', JStr ''object''),
      (''x-waha-entity'', JObj [(''class_name'', JStr ''Group'')]),
      (''required'', JArr [JStr ''id'']),
      (''properties'', JObj [(''id'', JObj [(''type'', JStr ''string'')]),
                             (''from'', JObj [(''type'', JStr ''integer'')])])]"

text \<open>An ASCII letter or digit.\<close>

definition is_alnum :: "char \<Rightarrow> bool" where
  "is_alnum c = (is_upper c \<or> is_lower c \<or> is_digit c)"

text \<open>The endpoint \<open>e\<close> is listed under \<open>tag\<close> in the tag-to-endpoints dict.\<close>

definition listed :: "(string \<times> EndpointInfo list) list \<Rightarrow> string \<Rightarrow> EndpointInfo \<Rightarrow> bool" where
  "listed eps tag e = (case map_of eps tag of None \<Rightarrow> False | Some es \<Rightarrow> e \<in> set es)"

text \<open>A document with one path that has a tagged \<^verbatim>\<open>get\<close>, an untagged
  \<^verbatim>\<open>post\<close> and a \<^verbatim>\<open>head\<close> operation, the endpoints parsed from it, and a document
  whose only operation is a \<^verbatim>\<open>head\<close>.\<close>

definition ex_sessions_item :: json where
  "ex_sessions_item =
     JObj [(''get'', JObj [(''operationId'', JStr ''listSessions''),
                           (''tags'', JArr [JStr ''Chat Sessions''])]),
           (''post'', JObj [(''operationId'', JStr ''createSession'')]),
           (''head'', JObj [(''operationId'', JStr ''pingSessions'')])]"

definition ex_api_spec :: json where
  "ex_api_spec = JObj [(''paths'', JObj [(''/api/sessions'', ex_sessions_item)])]"

definition ex_head_spec :: json where
  "ex_head_spec =
     JObj [(''paths'', JObj [(''/ping'', JObj [(''head'', JObj [(''operationId'', JStr ''ping'')])])])]"

definition ex_get_endpoint :: EndpointInfo where
  "ex_get_endpoint =
     \<lparr>ep_name = ''listSessions'', ep_python_name = ''list_sessions'', ep_method = ''GET'',
      ep_path = ''/api/sessions'', ep_summary = JStr [], ep_description = JStr [],
      ep_tag = ''chat__sessions'', ep_parameters = [], ep_body = None,
      ep_response_type = ''Any''\<rparr>"

definition ex_post_endpoint :: EndpointInfo where
  "ex_post_endpoint =
     \<lparr>ep_name = ''createSession'', ep_python_name = ''create_session'', ep_method = ''POST'',
      ep_path = ''/api/sessions'', ep_summary = JStr [], ep_description = JStr [],
      ep_tag = ''default'', ep_parameters = [], ep_body = None,
      ep_response_type = ''Any''\<rparr>"

definition ex_api_result :: generator where
  "ex_api_result =
     \<lparr>endpoints = [(''chat__sessions'', [ex_get_endpoint]), (''default'', [ex_post_endpoint])],
      models = [], enums = [], entities = []\<rparr>"

text \<open>A schema whose single \<^verbatim>\<open>allOf\<close> member declares a property and lists it as
  required, followed by a property of the schema's own.\<close>

definition ex_all_of_schema :: json where
  "ex_all_of_schema =
     JObj [(''allOf'', JArr [JObj [(''type'', JStr ''object''),
                                   (''properties'', JObj [(''id'', JObj [(''type'', JStr ''string'')])]),
                                   (''required'', JArr [JStr ''id''])]]),
           (''properties'', JObj [(''name'', JObj [(''type'', JStr ''string'')])]),
           (''required'', JArr [JStr ''name''])]"

text \<open>The rule for the response type as the specification words it, read off the
  document: a response has JSON content when it is an object whose \<^verbatim>\<open>content\<close> is an
  object with an \<^verbatim>\<open>application/json\<close> object; its schema is that object's
  \<^verbatim>\<open>schema\<close>, or the empty schema. The first candidate status, in the given order,
  that is a key of the responses and has JSON content decides: its schema is resolved
  as required. With no such candidate the type is \<^verbatim>\<open>Any\<close>.\<close>

definition json_content_schema :: "json \<Rightarrow> json option" where
  "json_content_schema resp =
     (case resp of
        JObj r \<Rightarrow>
          (case map_of r ''content'' of
             Some (JObj c) \<Rightarrow>
               (case map_of c ''application/json'' of
                  Some (JObj m) \<Rightarrow>
                    Some (case map_of m ''schema'' of None \<Rightarrow> JObj [] | Some s \<Rightarrow> s)
                | _ \<Rightarrow> None)
           | _ \<Rightarrow> None)
      | _ \<Rightarrow> None)"

definition declared_json_schema :: "json \<Rightarrow> string \<Rightarrow> json option" where
  "declared_json_schema responses status =
     (case responses of
        JObj rs \<Rightarrow> (case map_of rs status of None \<Rightarrow> None | Some resp \<Rightarrow> json_content_schema resp)
      | _ \<Rightarrow> None)"

definition response_type_spec :: "json \<Rightarrow> string list \<Rightarrow> error + string" where
  "response_type_spec responses candidates =
     (case find (\<lambda>status. declared_json_schema responses status \<noteq> None) candidates of
        None \<Rightarrow> Inr ''Any''
      | Some status \<Rightarrow>
          (case declared_json_schema responses status of
             Some schema \<Rightarrow> get_type_hint schema True
           | None \<Rightarrow> Inr ''Any''))"

definition ex_limit_param :: json where
  "ex_limit_param =
     JObj [(''name'', JStr ''limit''), (''in'', JStr ''query''),
           (''schema'', JObj [(''type'', JStr ''integer'')])]"

definition ex_chat_operation :: "(string \<times> json) list" where
  "ex_chat_operation =
     [(''operationId'', JStr ''getChat''),
      (''parameters'', JArr [ex_path_param, ex_limit_param])]"

definition ex_limit_prop :: PropertyInfo where
  "ex_limit_prop = \<lparr>p_name = ''limit'', p_python_name = ''limit'', p_type_hint = ''int | None'',
     p_required = JBool False, p_default = JNull, p_description = JStr [], p_enum_values = JNull,
     p_is_body = False\<rparr>"

definition ex_chat_endpoint :: EndpointInfo where
  "ex_chat_endpoint =
     \<lparr>ep_name = ''getChat'', ep_python_name = ''get_chat'', ep_method = ''GET'',
      ep_path = ''/api/chats/{chatId}'', ep_summary = JStr [], ep_description = JStr [],
      ep_tag = ''chats'', ep_parameters = [ex_path_prop, ex_limit_prop], ep_body = None,
      ep_response_type = ''Any''\<rparr>"

definition ex_session_endpoint :: EndpointInfo where
  "ex_session_endpoint =
     \<lparr>ep_name = ''startSession'', ep_python_name = ''start_session'', ep_method = ''POST'',
      ep_path = ''/api/sessions/start'', ep_summary = JStr [], ep_description = JStr [],
      ep_tag = ''sessions'', ep_parameters = [], ep_body = None,
      ep_response_type = ''Session''\<rparr>"

text \<open>The value a reference path leads to from the document root: each piece of the
  path is a key of the object reached so far.\<close>

fun at_path :: "json \<Rightarrow> string list \<Rightarrow> json option" where
  "at_path x [] = Some x"
| "at_path (JObj kvs) (part # parts) =
     (case map_of kvs part of None \<Rightarrow> None | Some y \<Rightarrow> at_path y parts)"
| "at_path _ (part # parts) = None"

definition ex_session_prop :: PropertyInfo where
  "ex_session_prop =
     \<lparr>p_name = ''session'', p_python_name = ''session'', p_type_hint = ''str | None'',
      p_required = JBool False, p_default = JStr ''default'', p_description = JStr [],
      p_enum_values = JNull, p_is_body = False\<rparr>"

definition ex_ref_operation :: "(string \<times> json) list" where
  "ex_ref_operation =
     [(''operationId'', JStr ''getChat''),
      (''parameters'', JArr [ex_path_param, ex_ref_param])]"

definition ex_inline_operation :: "(string \<times> json) list" where
  "ex_inline_operation =
     [(''operationId'', JStr ''getChat''),
      (''parameters'', JArr [ex_path_param, JObj ex_session_param])]"

definition ex_ref_endpoint :: EndpointInfo where
  "ex_ref_endpoint =
     \<lparr>ep_name = ''getChat'', ep_python_name = ''get_chat'', ep_method = ''GET'',
      ep_path = ''/api/chats/{chatId}'', ep_summary = JStr [], ep_description = JStr [],
      ep_tag = ''chats'', ep_parameters = [ex_path_prop, ex_session_prop], ep_body = None,
      ep_response_type = ''Any''\<rparr>"

text \<open>A schema named in Pascal case and marked as an entity by a payload that gives
  no \<^verbatim>\<open>class_name\<close>.\<close>

definition ex_entity_without_override :: json where
  "ex_entity_without_override =
     JObj [(''type'', JStr ''object''),
           (''x-waha-entity'', JObj [(''description'', JStr ''A group chat'')]),
           (''properties'', JObj [(''id'', JObj [(''type'', JStr ''string'')])])]"

section \<open>Basic facts\<close>

lemma bindE_Inr_id [simp]: "bindE m Inr = m"
  by (simp add: bindE_def split: sum.splits)

lemma bindE_assoc: "bindE (bindE m f) g = bindE m (\<lambda>x. bindE (f x) g)"
  by (simp add: bindE_def split: sum.splits)

lemma bindE_if: "bindE (if b then x else y) f = (if b then bindE x f else bindE y f)"
  by simp

lemma bindE_case_list:
  "bindE (case xs of [] \<Rightarrow> a | y # ys \<Rightarrow> b y ys) f
     = (case xs of [] \<Rightarrow> bindE a f | y # ys \<Rightarrow> bindE (b y ys) f)"
  by (simp split: list.splits)

lemma optional_True [simp]: "optional True t = t"
  by (simp add: optional_def)

lemma map_of_in_keys: "map_of kvs k = Some v \<Longrightarrow> k \<in> fst ` set kvs"
  by (metis map_of_eq_None_iff option.distinct(1))

lemma map_of_not_in_keys: "k \<notin> fst ` set kvs \<Longrightarrow> map_of kvs k = None"
  by (simp add: map_of_eq_None_iff)

section \<open>Parameters\<close>

lemma build_param_required:
  assumes "build_param r = Inr prop"
  shows "\<exists>kvs. r = JObj kvs \<and>
     p_required prop =
       (if map_of kvs ''in'' = Some (JStr ''path'') then JBool True
        else case map_of kvs ''required'' of None \<Rightarrow> JBool False | Some v \<Rightarrow> v)"
proof (cases r)
  case (JObj kvs)
  with assms show ?thesis
    by (auto simp: build_param_def bindE_def Let_def split: sum.splits option.splits if_splits)
qed (use assms in \<open>simp_all add: build_param_def\<close>)

lemma parse_params_cong_at:
  "parse_param spec a = parse_param spec b \<Longrightarrow>
   parse_params spec (pre @ a # post) acc = parse_params spec (pre @ b # post) acc"
  by (induction pre arbitrary: acc) (simp_all add: bindE_def split: sum.splits)

section \<open>Entities\<close>

text \<open>
  C10. A schema whose \<^verbatim>\<open>x-waha-entity\<close> key is present with a falsy payload (an empty
  object, \<^verbatim>\<open>null\<close>, \<^verbatim>\<open>false\<close>, ...) adds nothing to the parsed data: no EntityInfo is
  produced for it.
\<close>

theorem falsy_entity_marker_skipped:
  assumes "map_of kvs ''x-waha-entity'' = Some cfg" and "\<not> truthy cfg"
  shows "parse_entity schema_name (JObj kvs) g = Inr g"
  using assms by (simp add: parse_entity_def)

theorem falsy_entity_marker_skipped_witness:
  "map_of [(''type'', JStr ''object''), (''x-waha-entity'', JObj [])] ''x-waha-entity''
     = Some (JObj [])
   \<and> \<not> truthy (JObj [])
   \<and> parse_entity ''GroupInfo'' (JObj [(''type'', JStr ''object''), (''x-waha-entity'', JObj [])])
        init_generator = Inr init_generator"
proof -
  have a: "map_of [(''type'', JStr ''object''), (''x-waha-entity'', JObj [])] ''x-waha-entity''
     = Some (JObj [])"
    by simp
  have b: "\<not> truthy (JObj [])" by simp
  show ?thesis
    using a b falsy_entity_marker_skipped [OF a b, of "''GroupInfo''" init_generator] by simp
qed

section \<open>Facts about the type resolver\<close>

lemma hint_ref:
  "map_of kvs ''$ref'' = Some r \<Longrightarrow>
   get_type_hint (JObj kvs) required =
     bindE (py_split r) (\<lambda>parts. Inr (optional required (last parts)))"
  by (simp add: get_type_hint.simps[of "JObj kvs" required] map_of_in_keys)

lemma hint_allOf:
  "''$ref'' \<notin> fst ` set kvs \<Longrightarrow> map_of kvs ''allOf'' = Some members \<Longrightarrow>
   get_type_hint (JObj kvs) required =
     bindE (py_iter members) (\<lambda>items.
       case items of item # _ \<Rightarrow> get_type_hint item required
                   | [] \<Rightarrow> Inr (optional required ''Any''))"
  by (simp add: get_type_hint.simps[of "JObj kvs" required] map_of_in_keys)

lemma hint_oneOf:
  "''$ref'' \<notin> fst ` set kvs \<Longrightarrow> ''allOf'' \<notin> fst ` set kvs \<Longrightarrow>
   map_of kvs ''oneOf'' = Some alts \<Longrightarrow> truthy alts \<Longrightarrow>
   get_type_hint (JObj kvs) required =
     bindE (py_iter alts) (\<lambda>items.
     bindE (get_type_hints items) (\<lambda>types.
     Inr (optional required (join '' | '' types))))"
  by (simp add: get_type_hint.simps[of "JObj kvs" required] map_of_in_keys)

lemma hint_anyOf:
  "''$ref'' \<notin> fst ` set kvs \<Longrightarrow> ''allOf'' \<notin> fst ` set kvs \<Longrightarrow>
   ''oneOf'' \<notin> fst ` set kvs \<Longrightarrow> map_of kvs ''anyOf'' = Some alts \<Longrightarrow>
   get_type_hint (JObj kvs) required =
     bindE (py_iter alts) (\<lambda>items.
     bindE (get_type_hints items) (\<lambda>types.
     Inr (optional required (join '' | '' types))))"
  by (simp add: get_type_hint.simps[of "JObj kvs" required] map_of_in_keys map_of_not_in_keys)

lemma hint_array:
  "''$ref'' \<notin> fst ` set kvs \<Longrightarrow> ''allOf'' \<notin> fst ` set kvs \<Longrightarrow>
   ''oneOf'' \<notin> fst ` set kvs \<Longrightarrow> ''anyOf'' \<notin> fst ` set kvs \<Longrightarrow>
   map_of kvs ''type'' = Some (JStr ''array'') \<Longrightarrow>
   get_type_hint (JObj kvs) required =
     bindE (get_type_hint (case map_of kvs ''items'' of None \<Rightarrow> JObj [] | Some i \<Rightarrow> i) True)
       (\<lambda>item_type. Inr (optional required (''list['' @ item_type @ '']'')))"
  by (simp add: get_type_hint.simps[of "JObj kvs" required] map_of_in_keys)

lemma hint_map:
  "''$ref'' \<notin> fst ` set kvs \<Longrightarrow> ''allOf'' \<notin> fst ` set kvs \<Longrightarrow>
   ''oneOf'' \<notin> fst ` set kvs \<Longrightarrow> ''anyOf'' \<notin> fst ` set kvs \<Longrightarrow>
   map_of kvs ''type'' = Some (JStr ''object'') \<Longrightarrow>
   map_of kvs ''additionalProperties'' = Some ap \<Longrightarrow>
   get_type_hint (JObj kvs) required =
     bindE (get_type_hint ap True)
       (\<lambda>value_type. Inr (optional required (''dict[str, '' @ value_type @ '']'')))"
  by (simp add: get_type_hint.simps[of "JObj kvs" required] map_of_in_keys)

lemma split_on_nonempty: "split_on d s \<noteq> []"
  by (induction s) (auto split: list.splits)

lemma split_on_no_sep: "d \<notin> set s \<Longrightarrow> split_on d s = [s]"
  by (induction s) auto

lemma split_on_single: "split_on d s = [q] \<Longrightarrow> d \<notin> set s"
proof (induction s arbitrary: q)
  case Nil
  then show ?case by simp
next
  case (Cons c cs)
  then show ?case
    using split_on_nonempty[of d cs] by (auto split: if_splits list.splits)
qed

lemma last_split_on:
  "d \<notin> set (last (split_on d s))
   \<and> (\<exists>p. s = p @ last (split_on d s) \<and> (p = [] \<or> last p = d))"
proof (induction s)
  case Nil
  show ?case by simp
next
  case (Cons c cs)
  let ?L = "last (split_on d cs)"
  from Cons obtain p where p: "cs = p @ ?L" "p = [] \<or> last p = d" and nd: "d \<notin> set ?L"
    by blast
  show ?case
  proof (cases "c = d")
    case True
    then have "last (split_on d (c # cs)) = ?L" by (simp add: split_on_nonempty)
    moreover have "c # cs = (c # p) @ ?L" using p by simp
    moreover have "last (c # p) = d" using p True by auto
    ultimately show ?thesis using nd by (metis list.distinct(1))
  next
    case False
    obtain q qs where q: "split_on d cs = q # qs"
      using split_on_nonempty[of d cs] by (cases "split_on d cs") auto
    show ?thesis
    proof (cases qs)
      case Nil
      with q have "d \<notin> set cs" using split_on_single by blast
      then have "split_on d (c # cs) = [c # cs]" using False split_on_no_sep[of d "c # cs"] by simp
      then show ?thesis using False \<open>d \<notin> set cs\<close> by simp
    next
      case (Cons q' qs')
      then have l: "last (split_on d (c # cs)) = ?L" using q False by simp
      have "d \<in> set cs" using q Cons split_on_no_sep[of d cs] by auto
      then have "p \<noteq> []" using p nd by auto
      then have "last (c # p) = d" using p by simp
      moreover have "c # cs = (c # p) @ ?L" using p by simp
      ultimately show ?thesis using nd l by (metis list.distinct(1))
    qed
  qed
qed

lemma optional_marker_outermost:
  "get_type_hint schema required =
     bindE (get_type_hint schema True) (\<lambda>t. Inr (optional required t))"
  and get_type_hints_length:
  "\<forall>ts. get_type_hints items = Inr ts \<longrightarrow> length ts = length items"
proof (induction schema required and items rule: get_type_hint_get_type_hints.induct)
  case (1 schema required)
  show ?case
    apply (simp only: get_type_hint.simps[of schema required] get_type_hint.simps[of schema True])
    apply (simp only: bindE_assoc bindE_if bindE_case_list bindE_simps optional_True)
    apply (intro bindE_cong refl if_cong list.case_cong)
    apply (simp_all only: refl)
    apply (rule 1; (assumption | simp))
    done
next
  case 2
  show ?case by simp
next
  case (3 item items)
  then show ?case by (auto simp: bindE_def split: sum.splits)
qed

text \<open>
  C7. A schema node whose \<^verbatim>\<open>$ref\<close> is a string resolves to the last piece of that
  string split at \<^verbatim>\<open>/\<close> (a suffix of the reference with no \<^verbatim>\<open>/\<close> in it, preceded
  by a \<^verbatim>\<open>/\<close> unless it is the whole reference), followed by \<^verbatim>\<open> | None\<close> exactly when
  required is false. For every schema node, resolving with required = false gives the
  result for required = true with \<^verbatim>\<open> | None\<close> appended at the end, and nothing else
  changes. The items of an array, the values of a map and the members of a
  \<^verbatim>\<open>oneOf\<close>/\<^verbatim>\<open>anyOf\<close> are resolved with required = true whatever the flag of the
  enclosing node.
\<close>

theorem reference_and_optional_marker:
  "(map_of kvs ''$ref'' = Some (JStr r) \<longrightarrow>
      get_type_hint (JObj kvs) required
        = Inr (optional required (last (split_on CHR ''/'' r)))
      \<and> CHR ''/'' \<notin> set (last (split_on CHR ''/'' r))
      \<and> (\<exists>p. r = p @ last (split_on CHR ''/'' r) \<and> (p = [] \<or> last p = CHR ''/'')))
   \<and> optional required t = (if required then t else t @ '' | None'')
   \<and> get_type_hint schema required
        = bindE (get_type_hint schema True) (\<lambda>t. Inr (optional required t))
   \<and> (''$ref'' \<notin> fst ` set kvs \<and> ''allOf'' \<notin> fst ` set kvs
        \<and> ''oneOf'' \<notin> fst ` set kvs \<and> ''anyOf'' \<notin> fst ` set kvs
        \<and> map_of kvs ''type'' = Some (JStr ''array'') \<longrightarrow>
      get_type_hint (JObj kvs) required
        = bindE (get_type_hint (case map_of kvs ''items'' of None \<Rightarrow> JObj [] | Some i \<Rightarrow> i) True)
            (\<lambda>item_type. Inr (optional required (''list['' @ item_type @ '']''))))
   \<and> (''$ref'' \<notin> fst ` set kvs \<and> ''allOf'' \<notin> fst ` set kvs
        \<and> ''oneOf'' \<notin> fst ` set kvs \<and> ''anyOf'' \<notin> fst ` set kvs
        \<and> map_of kvs ''type'' = Some (JStr ''object'')
        \<and> map_of kvs ''additionalProperties'' = Some ap \<longrightarrow>
      get_type_hint (JObj kvs) required
        = bindE (get_type_hint ap True)
            (\<lambda>value_type. Inr (optional required (''dict[str, '' @ value_type @ '']''))))
   \<and> (''$ref'' \<notin> fst ` set kvs \<and> ''allOf'' \<notin> fst ` set kvs
        \<and> map_of kvs ''oneOf'' = Some (JArr (m # ms)) \<longrightarrow>
      get_type_hint (JObj kvs) required
        = bindE (get_type_hints (m # ms))
            (\<lambda>types. Inr (optional required (join '' | '' types))))
   \<and> (''$ref'' \<notin> fst ` set kvs \<and> ''allOf'' \<notin> fst ` set kvs
        \<and> ''oneOf'' \<notin> fst ` set kvs \<and> map_of kvs ''anyOf'' = Some (JArr ms) \<longrightarrow>
      get_type_hint (JObj kvs) required
        = bindE (get_type_hints ms)
            (\<lambda>types. Inr (optional required (join '' | '' types))))
   \<and> get_type_hints (m # ms)
        = bindE (get_type_hint m True) (\<lambda>t. bindE (get_type_hints ms) (\<lambda>ts. Inr (t # ts)))"
proof -
  have ref: "map_of kvs ''$ref'' = Some (JStr r) \<longrightarrow>
      get_type_hint (JObj kvs) required
        = Inr (optional required (last (split_on CHR ''/'' r)))"
    by (simp add: hint_ref)
  have seg: "CHR ''/'' \<notin> set (last (split_on CHR ''/'' r))
      \<and> (\<exists>p. r = p @ last (split_on CHR ''/'' r) \<and> (p = [] \<or> last p = CHR ''/''))"
    by (rule last_split_on)
  have opt: "optional required t = (if required then t else t @ '' | None'')"
    by (simp add: optional_def)
  have outer: "get_type_hint schema required
        = bindE (get_type_hint schema True) (\<lambda>t. Inr (optional required t))"
    by (rule optional_marker_outermost)
  have arr: "''$ref'' \<notin> fst ` set kvs \<and> ''allOf'' \<notin> fst ` set kvs
        \<and> ''oneOf'' \<notin> fst ` set kvs \<and> ''anyOf'' \<notin> fst ` set kvs
        \<and> map_of kvs ''type'' = Some (JStr ''array'') \<longrightarrow>
      get_type_hint (JObj kvs) required
        = bindE (get_type_hint (case map_of kvs ''items'' of None \<Rightarrow> JObj [] | Some i \<Rightarrow> i) True)
            (\<lambda>item_type. Inr (optional required (''list['' @ item_type @ '']'')))"
    using hint_array by blast
  have mp: "''$ref'' \<notin> fst ` set kvs \<and> ''allOf'' \<notin> fst ` set kvs
        \<and> ''oneOf'' \<notin> fst ` set kvs \<and> ''anyOf'' \<notin> fst ` set kvs
        \<and> map_of kvs ''type'' = Some (JStr ''object'')
        \<and> map_of kvs ''additionalProperties'' = Some ap \<longrightarrow>
      get_type_hint (JObj kvs) required
        = bindE (get_type_hint ap True)
            (\<lambda>value_type. Inr (optional required (''dict[str, '' @ value_type @ '']'')))"
    using hint_map by blast
  have one: "''$ref'' \<notin> fst ` set kvs \<and> ''allOf'' \<notin> fst ` set kvs
        \<and> map_of kvs ''oneOf'' = Some (JArr (m # ms)) \<longrightarrow>
      get_type_hint (JObj kvs) required
        = bindE (get_type_hints (m # ms))
            (\<lambda>types. Inr (optional required (join '' | '' types)))"
    using hint_oneOf [of kvs "JArr (m # ms)" required] by simp
  have any: "''$ref'' \<notin> fst ` set kvs \<and> ''allOf'' \<notin> fst ` set kvs
        \<and> ''oneOf'' \<notin> fst ` set kvs \<and> map_of kvs ''anyOf'' = Some (JArr ms) \<longrightarrow>
      get_type_hint (JObj kvs) required
        = bindE (get_type_hints ms)
            (\<lambda>types. Inr (optional required (join '' | '' types)))"
    using hint_anyOf [of kvs "JArr ms" required] by simp
  have step: "get_type_hints (m # ms)
        = bindE (get_type_hint m True) (\<lambda>t. bindE (get_type_hints ms) (\<lambda>ts. Inr (t # ts)))"
    by simp
  show ?thesis
    using ref seg opt outer arr mp one any step by blast
qed

theorem reference_and_optional_marker_witness:
  "map_of [(''$ref'', JStr ''#/components/schemas/Foo'')] ''$ref''
     = Some (JStr ''#/components/schemas/Foo'')
   \<and> get_type_hint (JObj [(''$ref'', JStr ''#/components/schemas/Foo'')]) False
       = Inr ''Foo | None''
   \<and> get_type_hint (JObj [(''$ref'', JStr ''#/components/schemas/Foo'')]) True = Inr ''Foo''
   \<and> get_type_hint (JObj [(''type'', JStr ''array''),
                          (''items'', JObj [(''$ref'', JStr ''#/components/schemas/Foo'')])]) False
       = Inr ''list[Foo] | None''
   \<and> get_type_hint (JObj [(''type'', JStr ''object''),
                          (''additionalProperties'', JObj [(''type'', JStr ''integer'')])]) False
       = Inr ''dict[str, int] | None''
   \<and> get_type_hint (JObj [(''oneOf'', JArr [JObj [(''type'', JStr ''integer'')],
                                               JObj [(''type'', JStr ''string'')]])]) False
       = Inr ''int | str | None''
   \<and> get_type_hint (JObj [(''anyOf'', JArr [JObj [(''type'', JStr ''boolean'')]])]) False
       = Inr ''bool | None''"
proof -
  let ?ref = "[(''$ref'', JStr ''#/components/schemas/Foo'')]"
  let ?arr = "[(''type'', JStr ''array''), (''items'', JObj ?ref)]"
  let ?int = "JObj [(''type'', JStr ''integer'')]"
  let ?str = "JObj [(''type'', JStr ''string'')]"
  let ?bool = "JObj [(''type'', JStr ''boolean'')]"
  let ?map = "[(''type'', JStr ''object''), (''additionalProperties'', ?int)]"
  let ?one = "[(''oneOf'', JArr [?int, ?str])]"
  let ?any = "[(''anyOf'', JArr [?bool])]"
  have a: "map_of ?ref ''$ref'' = Some (JStr ''#/components/schemas/Foo'')"
    by simp
  have s: "last (split_on CHR ''/'' ''#/components/schemas/Foo'') = ''Foo''"
    by code_simp
  have e1: "get_type_hint (JObj ?ref) True = Inr ''Foo''" by code_simp
  have e2: "get_type_hint ?int True = Inr ''int''" by code_simp
  have e3: "get_type_hints [?int, ?str] = Inr [''int'', ''str'']" by code_simp
  have e4: "get_type_hints [?bool] = Inr [''bool'']" by code_simp
  have f: "get_type_hint (JObj ?ref) False
      = Inr (optional False (last (split_on CHR ''/'' ''#/components/schemas/Foo'')))"
    using reference_and_optional_marker [of ?ref "''#/components/schemas/Foo''" False] a
    by blast
  have t: "get_type_hint (JObj ?ref) True
      = Inr (optional True (last (split_on CHR ''/'' ''#/components/schemas/Foo'')))"
    using reference_and_optional_marker [of ?ref "''#/components/schemas/Foo''" True] a
    by blast
  have karr: "''$ref'' \<notin> fst ` set ?arr \<and> ''allOf'' \<notin> fst ` set ?arr
      \<and> ''oneOf'' \<notin> fst ` set ?arr \<and> ''anyOf'' \<notin> fst ` set ?arr
      \<and> map_of ?arr ''type'' = Some (JStr ''array'')"
    by simp
  have arr: "get_type_hint (JObj ?arr) False
      = bindE (get_type_hint (case map_of ?arr ''items'' of None \<Rightarrow> JObj [] | Some i \<Rightarrow> i) True)
          (\<lambda>item_type. Inr (optional False (''list['' @ item_type @ '']'')))"
    using reference_and_optional_marker [of ?arr _ False] karr by blast
  have kmap: "''$ref'' \<notin> fst ` set ?map \<and> ''allOf'' \<notin> fst ` set ?map
      \<and> ''oneOf'' \<notin> fst ` set ?map \<and> ''anyOf'' \<notin> fst ` set ?map
      \<and> map_of ?map ''type'' = Some (JStr ''object'')
      \<and> map_of ?map ''additionalProperties'' = Some ?int"
    by simp
  have mp: "get_type_hint (JObj ?map) False
      = bindE (get_type_hint ?int True)
          (\<lambda>value_type. Inr (optional False (''dict[str, '' @ value_type @ '']'')))"
    using reference_and_optional_marker [of ?map _ False _ _ ?int] kmap by blast
  have kone: "''$ref'' \<notin> fst ` set ?one \<and> ''allOf'' \<notin> fst ` set ?one
      \<and> map_of ?one ''oneOf'' = Some (JArr (?int # [?str]))"
    by simp
  have one: "get_type_hint (JObj ?one) False
      = bindE (get_type_hints (?int # [?str]))
          (\<lambda>types. Inr (optional False (join '' | '' types)))"
    using reference_and_optional_marker [of ?one _ False _ _ _ ?int "[?str]"] kone by blast
  have kany: "''$ref'' \<notin> fst ` set ?any \<and> ''allOf'' \<notin> fst ` set ?any
      \<and> ''oneOf'' \<notin> fst ` set ?any \<and> map_of ?any ''anyOf'' = Some (JArr [?bool])"
    by simp
  have any: "get_type_hint (JObj ?any) False
      = bindE (get_type_hints [?bool])
          (\<lambda>types. Inr (optional False (join '' | '' types)))"
    using reference_and_optional_marker [of ?any _ False _ _ _ _ "[?bool]"] kany by blast
  have r1: "get_type_hint (JObj ?ref) False = Inr ''Foo | None''"
    using f s by (simp add: optional_def)
  have r2: "get_type_hint (JObj ?ref) True = Inr ''Foo''"
    using t s by simp
  have r3: "get_type_hint (JObj ?arr) False = Inr ''list[Foo] | None''"
    using arr e1 by (simp add: optional_def)
  have r4: "get_type_hint (JObj ?map) False = Inr ''dict[str, int] | None''"
    using mp e2 by (simp add: optional_def)
  have r5: "get_type_hint (JObj ?one) False = Inr ''int | str | None''"
    using one e3 by (simp add: optional_def)
  have r6: "get_type_hint (JObj ?any) False = Inr ''bool | None''"
    using any e4 by (simp add: optional_def)
  show ?thesis using a r1 r2 r3 r4 r5 r6 by blast
qed

text \<open>
  C6, as amended. A schema node with an \<^verbatim>\<open>allOf\<close> key and no \<^verbatim>\<open>$ref\<close> key, whose
  \<^verbatim>\<open>allOf\<close> is a list with at least one member, resolves to what its first member
  resolves to under the same required flag; the later members play no part. With an
  empty \<^verbatim>\<open>allOf\<close> list it resolves to \<^verbatim>\<open>Any\<close>.
\<close>

theorem all_of_first_member:
  "(''$ref'' \<notin> fst ` set kvs \<and> map_of kvs ''allOf'' = Some (JArr (item # rest)) \<longrightarrow>
      get_type_hint (JObj kvs) required = get_type_hint item required
      \<and> get_type_hint (JObj kvs) required
          = get_type_hint (JObj [(''allOf'', JArr [item])]) required)
   \<and> (''$ref'' \<notin> fst ` set kvs \<and> map_of kvs ''allOf'' = Some (JArr []) \<longrightarrow>
      get_type_hint (JObj kvs) required = Inr (optional required ''Any''))"
proof -
  have "get_type_hint (JObj [(''allOf'', JArr [item])]) required = get_type_hint item required"
    using hint_allOf [of "[(''allOf'', JArr [item])]" "JArr [item]" required] by simp
  then show ?thesis by (simp add: hint_allOf)
qed

theorem all_of_first_member_witness:
  "''$ref'' \<notin> fst ` set [(''allOf'', JArr [JObj [(''type'', JStr ''integer'')],
                                              JObj [(''type'', JStr ''string'')]])]
   \<and> get_type_hint (JObj [(''allOf'', JArr [JObj [(''type'', JStr ''integer'')],
                                               JObj [(''type'', JStr ''string'')]])]) False
       = Inr ''int | None''"
proof -
  have a: "''$ref'' \<notin> fst ` set [(''allOf'', JArr [JObj [(''type'', JStr ''integer'')],
                                              JObj [(''type'', JStr ''string'')]])]"
    by simp
  have b: "map_of [(''allOf'', JArr [JObj [(''type'', JStr ''integer'')],
                                     JObj [(''type'', JStr ''string'')]])] ''allOf''
      = Some (JArr (JObj [(''type'', JStr ''integer'')] # [JObj [(''type'', JStr ''string'')]]))"
    by simp
  have c: "get_type_hint (JObj [(''type'', JStr ''integer'')]) False = Inr ''int | None''"
    by code_simp
  have "get_type_hint (JObj [(''allOf'', JArr [JObj [(''type'', JStr ''integer'')],
                                               JObj [(''type'', JStr ''string'')]])]) False
      = get_type_hint (JObj [(''type'', JStr ''integer'')]) False"
    using all_of_first_member
      [of "[(''allOf'', JArr [JObj [(''type'', JStr ''integer'')],
                             JObj [(''type'', JStr ''string'')]])]"
          "JObj [(''type'', JStr ''integer'')]" "[JObj [(''type'', JStr ''string'')]]" False]
      a b by blast
  then show ?thesis using a c by simp
qed

text \<open>As the claim is worded, for every node with an \<^verbatim>\<open>allOf\<close> key, it fails on a node
  that also has a \<^verbatim>\<open>$ref\<close> key: the reference is resolved, not the first member.\<close>

theorem all_of_with_ref_counterexample:
  "get_type_hint (JObj [(''$ref'', JStr ''#/components/schemas/Foo''),
                        (''allOf'', JArr [JObj [(''type'', JStr ''integer'')]])]) True
     = Inr ''Foo''
   \<and> get_type_hint (JObj [(''type'', JStr ''integer'')]) True = Inr ''int''"
  by code_simp

section \<open>Property lists\<close>

lemma parse_properties_acc:
  "parse_properties kvs rf acc = bindE (parse_properties kvs rf []) (\<lambda>ps. Inr (acc @ ps))"
proof (induction kvs arbitrary: acc)
  case Nil
  show ?case by simp
next
  case (Cons kv kvs)
  obtain n s where kv: "kv = (n, s)" by (cases kv)
  show ?case
    unfolding kv
    apply (simp add: bindE_assoc)
    apply (rule bindE_cong [OF refl])
    apply (subst Cons.IH)
    apply (subst (2) Cons.IH)
    apply (simp add: bindE_assoc)
    done
qed

lemma parse_properties_all2:
  "parse_properties kvs rf [] = Inr ps \<longleftrightarrow>
     list_all2 (\<lambda>kv p. parse_property (fst kv) (snd kv) (JStr (fst kv) \<in> set rf) = Inr p) kvs ps"
proof (induction kvs arbitrary: ps)
  case Nil
  show ?case by auto
next
  case (Cons kv kvs)
  obtain n s where kv: "kv = (n, s)" by (cases kv)
  show ?case
    unfolding kv
    apply (simp add: parse_properties_acc [of kvs rf "[_]"])
    apply (simp add: list_all2_Cons1 Cons.IH [symmetric])
    apply (auto simp: bindE_def split: sum.splits)
    done
qed

text \<open>For a schema whose \<^verbatim>\<open>x-waha-entity\<close> payload is a non-empty object, the entity
  parser appends one EntityInfo: its class name is the payload's \<^verbatim>\<open>class_name\<close> when
  given and \<^verbatim>\<open>pascal_case\<close> of the schema name otherwise; its properties are the
  schema's own \<^verbatim>\<open>properties\<close>, in order, each parsed by \<^verbatim>\<open>_parse_property\<close> with
  required = membership of its name in the schema's own \<^verbatim>\<open>required\<close> list. The result
  does not depend on the \<^verbatim>\<open>allOf\<close> entry, and the property list is the one the schema
  parser builds for a model without composition.\<close>

lemma entity_class_name_and_properties:
  "(map_of kvs ''x-waha-entity'' = Some (JObj cfg) \<and> cfg \<noteq> [] \<longrightarrow>
      parse_entity schema_name (JObj kvs) g =
        bindE (py_set (case map_of kvs ''required'' of None \<Rightarrow> JArr [] | Some r \<Rightarrow> r))
          (\<lambda>required_fields.
        bindE (py_items (case map_of kvs ''properties'' of None \<Rightarrow> JObj [] | Some p \<Rightarrow> p))
          (\<lambda>own.
        bindE (parse_properties own required_fields []) (\<lambda>properties.
        Inr (g\<lparr>entities := entities g @
          [\<lparr>ent_name = (case map_of cfg ''class_name'' of
                          None \<Rightarrow> JStr (pascal_case schema_name) | Some n \<Rightarrow> n),
            ent_schema_name = schema_name,
            ent_properties = properties,
            ent_description =
              (case map_of kvs ''description'' of None \<Rightarrow> JStr [] | Some d \<Rightarrow> d)\<rparr>]\<rparr>)))))
   \<and> (parse_properties own required_fields [] = Inr properties \<longleftrightarrow>
        list_all2 (\<lambda>kv p. parse_property (fst kv) (snd kv)
                             (JStr (fst kv) \<in> set required_fields) = Inr p) own properties)
   \<and> ((\<forall>k. k \<noteq> ''allOf'' \<longrightarrow> map_of kvs' k = map_of kvs k) \<longrightarrow>
        parse_entity schema_name (JObj kvs') g = parse_entity schema_name (JObj kvs) g)
   \<and> (''enum'' \<notin> fst ` set kvs \<and> ''allOf'' \<notin> fst ` set kvs
        \<and> (map_of kvs ''type'' = Some (JStr ''object'') \<or> ''properties'' \<in> fst ` set kvs) \<longrightarrow>
      parse_schema schema_name (JObj kvs) g =
        bindE (py_set (case map_of kvs ''required'' of None \<Rightarrow> JArr [] | Some r \<Rightarrow> r))
          (\<lambda>required_fields.
        bindE (py_items (case map_of kvs ''properties'' of None \<Rightarrow> JObj [] | Some p \<Rightarrow> p))
          (\<lambda>own.
        bindE (parse_properties own required_fields []) (\<lambda>properties.
        Inr (g\<lparr>models := models g @
          [\<lparr>m_name = schema_name, m_python_name = schema_name,
            m_properties = properties,
            m_description =
              (case map_of kvs ''description'' of None \<Rightarrow> JStr [] | Some d \<Rightarrow> d)\<rparr>]\<rparr>)))))"
proof -
  have name: "map_of kvs ''x-waha-entity'' = Some (JObj cfg) \<and> cfg \<noteq> [] \<longrightarrow>
      parse_entity schema_name (JObj kvs) g =
        bindE (py_set (case map_of kvs ''required'' of None \<Rightarrow> JArr [] | Some r \<Rightarrow> r))
          (\<lambda>required_fields.
        bindE (py_items (case map_of kvs ''properties'' of None \<Rightarrow> JObj [] | Some p \<Rightarrow> p))
          (\<lambda>own.
        bindE (parse_properties own required_fields []) (\<lambda>properties.
        Inr (g\<lparr>entities := entities g @
          [\<lparr>ent_name = (case map_of cfg ''class_name'' of
                          None \<Rightarrow> JStr (pascal_case schema_name) | Some n \<Rightarrow> n),
            ent_schema_name = schema_name,
            ent_properties = properties,
            ent_description =
              (case map_of kvs ''description'' of None \<Rightarrow> JStr [] | Some d \<Rightarrow> d)\<rparr>]\<rparr>))))"
    by (simp add: parse_entity_def)
  have indep: "(\<forall>k. k \<noteq> ''allOf'' \<longrightarrow> map_of kvs' k = map_of kvs k) \<longrightarrow>
        parse_entity schema_name (JObj kvs') g = parse_entity schema_name (JObj kvs) g"
    by (simp add: parse_entity_def)
  have model: "''enum'' \<notin> fst ` set kvs \<and> ''allOf'' \<notin> fst ` set kvs
        \<and> (map_of kvs ''type'' = Some (JStr ''object'') \<or> ''properties'' \<in> fst ` set kvs) \<longrightarrow>
      parse_schema schema_name (JObj kvs) g =
        bindE (py_set (case map_of kvs ''required'' of None \<Rightarrow> JArr [] | Some r \<Rightarrow> r))
          (\<lambda>required_fields.
        bindE (py_items (case map_of kvs ''properties'' of None \<Rightarrow> JObj [] | Some p \<Rightarrow> p))
          (\<lambda>own.
        bindE (parse_properties own required_fields []) (\<lambda>properties.
        Inr (g\<lparr>models := models g @
          [\<lparr>m_name = schema_name, m_python_name = schema_name,
            m_properties = properties,
            m_description =
              (case map_of kvs ''description'' of None \<Rightarrow> JStr [] | Some d \<Rightarrow> d)\<rparr>]\<rparr>))))"
    by (auto simp: parse_schema_def)
  show ?thesis
    using name indep model parse_properties_all2 [of own required_fields properties] by blast
qed

lemma ex_group_props_parse:
  "parse_properties [(''id'', JObj [(''type'', JStr ''string'')]),
                     (''from'', JObj [(''type'', JStr ''integer'')])] [JStr ''id''] []
     = Inr ex_group_props"
  unfolding ex_group_props_def by code_simp

lemma entity_class_name_and_properties_example:
  "map_of ex_group_schema ''x-waha-entity'' = Some (JObj [(''class_name'', JStr ''Group'')])
   \<and> parse_entity ''GroupInfo'' (JObj ex_group_schema) init_generator
       = Inr (init_generator\<lparr>entities :=
           [\<lparr>ent_name = JStr ''Group'', ent_schema_name = ''GroupInfo'',
             ent_properties = ex_group_props, ent_description = JStr []\<rparr>]\<rparr>)
   \<and> parse_entity ''GroupInfo'' (JObj ex_group_plain) init_generator
       = parse_entity ''GroupInfo'' (JObj ex_group_schema) init_generator
   \<and> parse_schema ''GroupInfo'' (JObj ex_group_plain) init_generator
       = Inr (init_generator\<lparr>models :=
           [\<lparr>m_name = ''GroupInfo'', m_python_name = ''GroupInfo'',
             m_properties = ex_group_props, m_description = JStr []\<rparr>]\<rparr>)
   \<and> list_all2 (\<lambda>kv p. parse_property (fst kv) (snd kv) (JStr (fst kv) \<in> set [JStr ''id'']) = Inr p)
        [(''id'', JObj [(''type'', JStr ''string'')]), (''from'', JObj [(''type'', JStr ''integer'')])]
        ex_group_props"
proof -
  let ?cfg = "[(''class_name'', JStr ''Group'')]"
  let ?own = "[(''id'', JObj [(''type'', JStr ''string'')]),
               (''from'', JObj [(''type'', JStr ''integer'')])]"
  have h: "map_of ex_group_schema ''x-waha-entity'' = Some (JObj ?cfg) \<and> ?cfg \<noteq> []"
    by (simp add: ex_group_schema_def)
  have "parse_entity ''GroupInfo'' (JObj ex_group_schema) init_generator =
        bindE (py_set (case map_of ex_group_schema ''required'' of None \<Rightarrow> JArr [] | Some r \<Rightarrow> r))
          (\<lambda>required_fields.
        bindE (py_items (case map_of ex_group_schema ''properties'' of None \<Rightarrow> JObj [] | Some p \<Rightarrow> p))
          (\<lambda>own.
        bindE (parse_properties own required_fields []) (\<lambda>properties.
        Inr (init_generator\<lparr>entities := entities init_generator @
          [\<lparr>ent_name = (case map_of ?cfg ''class_name'' of
                          None \<Rightarrow> JStr (pascal_case ''GroupInfo'') | Some n \<Rightarrow> n),
            ent_schema_name = ''GroupInfo'',
            ent_properties = properties,
            ent_description =
              (case map_of ex_group_schema ''description'' of None \<Rightarrow> JStr [] | Some d \<Rightarrow> d)\<rparr>]\<rparr>))))"
    using entity_class_name_and_properties [of ex_group_schema ?cfg "''GroupInfo''" init_generator] h
    by blast
  then have e: "parse_entity ''GroupInfo'' (JObj ex_group_schema) init_generator
       = Inr (init_generator\<lparr>entities :=
           [\<lparr>ent_name = JStr ''Group'', ent_schema_name = ''GroupInfo'',
             ent_properties = ex_group_props, ent_description = JStr []\<rparr>]\<rparr>)"
    by (simp add: ex_group_schema_def py_set_def ex_group_props_parse init_generator_def
          del: parse_properties.simps)
  have k: "\<forall>k. k \<noteq> ''allOf'' \<longrightarrow> map_of ex_group_plain k = map_of ex_group_schema k"
    by (simp add: ex_group_plain_def ex_group_schema_def)
  have i: "parse_entity ''GroupInfo'' (JObj ex_group_plain) init_generator
       = parse_entity ''GroupInfo'' (JObj ex_group_schema) init_generator"
    using entity_class_name_and_properties
      [of ex_group_schema _ "''GroupInfo''" init_generator _ _ _ ex_group_plain] k
    by blast
  have hm: "''enum'' \<notin> fst ` set ex_group_plain \<and> ''allOf'' \<notin> fst ` set ex_group_plain
        \<and> (map_of ex_group_plain ''type'' = Some (JStr ''object'')
            \<or> ''properties'' \<in> fst ` set ex_group_plain)"
    by (simp add: ex_group_plain_def)
  have "parse_schema ''GroupInfo'' (JObj ex_group_plain) init_generator =
        bindE (py_set (case map_of ex_group_plain ''required'' of None \<Rightarrow> JArr [] | Some r \<Rightarrow> r))
          (\<lambda>required_fields.
        bindE (py_items (case map_of ex_group_plain ''properties'' of None \<Rightarrow> JObj [] | Some p \<Rightarrow> p))
          (\<lambda>own.
        bindE (parse_properties own required_fields []) (\<lambda>properties.
        Inr (init_generator\<lparr>models := models init_generator @
          [\<lparr>m_name = ''GroupInfo'', m_python_name = ''GroupInfo'',
            m_properties = properties,
            m_description =
              (case map_of ex_group_plain ''description'' of None \<Rightarrow> JStr [] | Some d \<Rightarrow> d)\<rparr>]\<rparr>))))"
    using entity_class_name_and_properties [of ex_group_plain _ "''GroupInfo''" init_generator] hm
    by blast
  then have m: "parse_schema ''GroupInfo'' (JObj ex_group_plain) init_generator
       = Inr (init_generator\<lparr>models :=
           [\<lparr>m_name = ''GroupInfo'', m_python_name = ''GroupInfo'',
             m_properties = ex_group_props, m_description = JStr []\<rparr>]\<rparr>)"
    by (simp add: ex_group_plain_def py_set_def ex_group_props_parse init_generator_def
          del: parse_properties.simps)
  have l: "list_all2 (\<lambda>kv p. parse_property (fst kv) (snd kv) (JStr (fst kv) \<in> set [JStr ''id'']) = Inr p)
        ?own ex_group_props"
    using entity_class_name_and_properties [of _ _ _ _ ?own "[JStr ''id'']" ex_group_props]
      ex_group_props_parse by blast
  show ?thesis using h e i m l by blast
qed

section \<open>Identifiers\<close>

lemma set_sub_word_start: "c \<in> set s \<Longrightarrow> c \<in> set (sub_word_start s)"
proof (induction s rule: sub_word_start.induct)
  case (1 c0 u l rest)
  have "set rest = set (takeWhile is_lower rest) \<union> set (dropWhile is_lower rest)"
    by (metis set_append takeWhile_dropWhile_id)
  with 1 show ?case by auto
qed simp_all

lemma set_sub_lower_upper: "c \<in> set s \<Longrightarrow> c \<in> set (sub_lower_upper s)"
  by (induction s rule: sub_lower_upper.induct) auto

lemma set_sub_non_word: "c \<in> set s \<Longrightarrow> is_word c \<Longrightarrow> c \<in> set (sub_non_word s)"
proof (induction s rule: sub_non_word.induct)
  case 1
  then show ?case by simp
next
  case (2 c0 rest)
  show ?case
  proof (cases "is_word c0")
    case True
    with 2 show ?thesis by auto
  next
    case False
    with 2 have "c \<in> set rest" by auto
    moreover have "set rest = set (takeWhile (\<lambda>x. \<not> is_word x) rest)
        \<union> set (dropWhile (\<lambda>x. \<not> is_word x) rest)"
      by (metis set_append takeWhile_dropWhile_id)
    moreover have "c \<notin> set (takeWhile (\<lambda>x. \<not> is_word x) rest)"
      using 2(4) by (auto dest: set_takeWhileD)
    ultimately have "c \<in> set (dropWhile (\<lambda>x. \<not> is_word x) rest)" by auto
    with 2 False show ?thesis by simp
  qed
qed

lemma alnum_not_underscore: "is_alnum c \<Longrightarrow> c \<noteq> CHR ''_''"
  by (auto simp: is_alnum_def is_upper_def is_lower_def is_digit_def)

lemma to_lower_alnum: "is_alnum c \<Longrightarrow> is_alnum (to_lower c)"
  by (auto simp: is_alnum_def to_lower_def is_upper_def is_lower_def is_digit_def)

lemma set_dropWhile_keeps: "c \<in> set s \<Longrightarrow> \<not> P c \<Longrightarrow> c \<in> set (dropWhile P s)"
  by (induction s) auto

lemma set_strip_by: "c \<in> set s \<Longrightarrow> \<not> P c \<Longrightarrow> c \<in> set (strip_by P s)"
  by (simp add: strip_by_def set_dropWhile_keeps)

lemma snake_case_nonempty:
  assumes "c \<in> set s" and "is_alnum c"
  shows "snake_case s \<noteq> []"
proof -
  have w: "is_word c" using assms(2) by (auto simp: is_alnum_def is_word_def)
  have "c \<in> set (sub_non_word (sub_lower_upper (sub_word_start s)))"
    using assms(1) w by (simp add: set_sub_word_start set_sub_lower_upper set_sub_non_word)
  then have "to_lower c \<in> set (lower (sub_non_word (sub_lower_upper (sub_word_start s))))"
    by (simp add: lower_def)
  then have "to_lower c \<in> set (snake_case s)"
    using alnum_not_underscore[OF to_lower_alnum[OF assms(2)]]
    by (simp add: snake_case_def set_strip_by)
  then show ?thesis by auto
qed

lemma alnum_not_space: "is_alnum c \<Longrightarrow> \<not> is_space c"
  by (auto simp: is_alnum_def is_space_def is_upper_def is_lower_def is_digit_def)

lemma sanitize_name_nonempty:
  assumes "c \<in> set s" and "is_alnum c"
  shows "sanitize_name s \<noteq> []"
proof -
  let ?kept = "filter (\<lambda>c. is_word c \<or> is_space c \<or> c = CHR ''-'') s"
  have "c \<in> set ?kept" using assms by (auto simp: is_alnum_def is_word_def)
  then have in_stripped: "c \<in> set (strip_by is_space ?kept)"
    using alnum_not_space[OF assms(2)] by (rule set_strip_by)
  then have "strip_by is_space ?kept \<noteq> []" by auto
  then have "sanitize_name s = snake_case (strip_by is_space ?kept)"
    by (simp add: sanitize_name_def Let_def)
  then show ?thesis using snake_case_nonempty[OF in_stripped assms(2)] by simp
qed

lemma snake_case_default: "snake_case ''default'' = ''default''"
  by code_simp

lemma python_name_not_keyword: "python_name_of s \<notin> set python_keywords"
  by (auto simp: python_name_of_def python_keywords_def Let_def)

text \<open>When nothing is left of the input after the unwanted characters are dropped and
  white space is stripped, \<^verbatim>\<open>sanitize_name\<close> returns the fallback \<^verbatim>\<open>"default"\<close>. For
  every input with at least one ASCII letter or digit, \<^verbatim>\<open>sanitize_name\<close> and the cased
  identifier of a property are non-empty. For every property name the cased identifier
  is not a reserved word: a snake-cased name that is one gets an underscore appended.\<close>

lemma identifiers_nonempty_and_unreserved:
  "(strip_by is_space (filter (\<lambda>c. is_word c \<or> is_space c \<or> c = CHR ''-'') s) = []
      \<longrightarrow> sanitize_name s = ''default'')
   \<and> (c \<in> set s \<and> is_alnum c \<longrightarrow> sanitize_name s \<noteq> [] \<and> python_name_of s \<noteq> [])
   \<and> python_name_of s \<notin> set python_keywords
   \<and> (parse_property s schema required = Inr prop \<longrightarrow>
        p_python_name prop = python_name_of s \<and> p_python_name prop \<notin> set python_keywords)
   \<and> (snake_case s \<in> set python_keywords \<longrightarrow> python_name_of s = snake_case s @ ''_'')"
proof -
  have a: "strip_by is_space (filter (\<lambda>c. is_word c \<or> is_space c \<or> c = CHR ''-'') s) = []
      \<longrightarrow> sanitize_name s = ''default''"
    by (simp add: sanitize_name_def snake_case_default)
  have b: "c \<in> set s \<and> is_alnum c \<longrightarrow> sanitize_name s \<noteq> [] \<and> python_name_of s \<noteq> []"
    using sanitize_name_nonempty snake_case_nonempty
    by (auto simp: python_name_of_def Let_def)
  have d: "parse_property s schema required = Inr prop \<longrightarrow> p_python_name prop = python_name_of s"
    by (auto simp: parse_property_def bindE_def split: sum.splits)
  have e: "snake_case s \<in> set python_keywords \<longrightarrow> python_name_of s = snake_case s @ ''_''"
    by (simp add: python_name_of_def)
  show ?thesis using a b d e python_name_not_keyword[of s] by simp
qed

lemma identifiers_nonempty_and_unreserved_example:
  "strip_by is_space (filter (\<lambda>c. is_word c \<or> is_space c \<or> c = CHR ''-'') ''!?'') = []
   \<and> sanitize_name ''!?'' = ''default''
   \<and> CHR ''f'' \<in> set ''from'' \<and> is_alnum CHR ''f''
   \<and> sanitize_name ''from'' \<noteq> [] \<and> python_name_of ''from'' \<noteq> []
   \<and> snake_case ''from'' \<in> set python_keywords
   \<and> python_name_of ''from'' = ''from_''
   \<and> parse_property ''from'' (JObj [(''type'', JStr ''integer'')]) False
       = Inr \<lparr>p_name = ''from'', p_python_name = ''from_'', p_type_hint = ''int | None'',
              p_required = JBool False, p_default = JNull, p_description = JStr [],
              p_enum_values = JNull, p_is_body = False\<rparr>
   \<and> ''from_'' \<notin> set python_keywords"
proof -
  let ?info = "\<lparr>p_name = ''from'', p_python_name = ''from_'', p_type_hint = ''int | None'',
              p_required = JBool False, p_default = JNull, p_description = JStr [],
              p_enum_values = JNull, p_is_body = False\<rparr>"
  have a: "strip_by is_space (filter (\<lambda>c. is_word c \<or> is_space c \<or> c = CHR ''-'') ''!?'') = []"
    by code_simp
  have b: "CHR ''f'' \<in> set ''from'' \<and> is_alnum CHR ''f''"
    by code_simp
  have c: "snake_case ''from'' \<in> set python_keywords"
    by code_simp
  have d: "parse_property ''from'' (JObj [(''type'', JStr ''integer'')]) False = Inr ?info"
    by code_simp
  have e: "snake_case ''from'' = ''from''"
    by code_simp
  have r1: "sanitize_name ''!?'' = ''default''"
    using identifiers_nonempty_and_unreserved [of "''!?''"] a by blast
  have r2: "sanitize_name ''from'' \<noteq> [] \<and> python_name_of ''from'' \<noteq> []"
    using identifiers_nonempty_and_unreserved [of "''from''" "CHR ''f''"] b by blast
  have r3: "python_name_of ''from'' = snake_case ''from'' @ ''_''"
    using identifiers_nonempty_and_unreserved [of "''from''"] c by blast
  have r4: "p_python_name ?info \<notin> set python_keywords"
    using identifiers_nonempty_and_unreserved
      [of "''from''" _ "JObj [(''type'', JStr ''integer'')]" False ?info] d by blast
  show ?thesis using a b c d e r1 r2 r3 r4 by simp
qed

section \<open>Endpoints\<close>

lemma listed_ensure_tag: "listed eps t e \<Longrightarrow> listed (ensure_tag tag eps) t e"
  by (auto simp: listed_def ensure_tag_def map_add_def split: option.splits)

lemma ensure_tag_has: "tag \<in> fst ` set (ensure_tag tag eps)"
  by (auto simp: ensure_tag_def)

lemma append_endpoint_keeps:
  "append_endpoint tag e eps = Inr eps' \<Longrightarrow> listed eps t x \<Longrightarrow> listed eps' t x"
proof (induction eps arbitrary: eps')
  case Nil
  then show ?case by simp
next
  case (Cons kv eps)
  obtain k es where kv: "kv = (k, es)" by (cases kv)
  show ?case
  proof (cases "k = tag")
    case True
    with Cons.prems kv show ?thesis by (auto simp: listed_def split: if_splits)
  next
    case False
    with Cons.prems kv obtain r where r: "append_endpoint tag e eps = Inr r" and e': "eps' = (k, es) # r"
      by (auto simp: bindE_def split: sum.splits)
    show ?thesis
    proof (cases "t = k")
      case True
      with Cons.prems kv e' show ?thesis by (simp add: listed_def)
    next
      case False
      with Cons.prems kv have "listed eps t x" by (simp add: listed_def)
      from Cons.IH[OF r this] False e' show ?thesis by (simp add: listed_def)
    qed
  qed
qed

lemma append_endpoint_adds:
  "append_endpoint tag e eps = Inr eps' \<Longrightarrow> listed eps' tag e"
proof (induction eps arbitrary: eps')
  case Nil
  then show ?case by simp
next
  case (Cons kv eps)
  obtain k es where kv: "kv = (k, es)" by (cases kv)
  show ?case
  proof (cases "k = tag")
    case True
    with Cons.prems kv show ?thesis by (auto simp: listed_def)
  next
    case False
    with Cons.prems kv obtain r where r: "append_endpoint tag e eps = Inr r" and e': "eps' = (k, es) # r"
      by (auto simp: bindE_def split: sum.splits)
    from Cons.IH[OF r] False e' show ?thesis by (simp add: listed_def)
  qed
qed

lemma append_endpoint_total:
  "tag \<in> fst ` set eps \<Longrightarrow> \<exists>eps'. append_endpoint tag e eps = Inr eps'"
proof (induction eps)
  case Nil
  then show ?case by simp
next
  case (Cons kv eps)
  obtain k es where kv: "kv = (k, es)" by (cases kv)
  show ?case
  proof (cases "k = tag")
    case True
    with kv show ?thesis by simp
  next
    case False
    with Cons.prems kv have "tag \<in> fst ` set eps" by auto
    from Cons.IH[OF this] obtain r where "append_endpoint tag e eps = Inr r" by blast
    with False kv show ?thesis by simp
  qed
qed

lemma append_after_ensure:
  "\<exists>eps'. append_endpoint tag e (ensure_tag tag eps) = Inr eps'"
  by (rule append_endpoint_total [OF ensure_tag_has])

lemma parse_methods_step:
  assumes "parse_methods spec path item (method # rest) g = Inr g'"
  shows "(py_in method item = Inr False \<and> parse_methods spec path item rest g = Inr g')
       \<or> (\<exists>operation tag e eps. py_in method item = Inr True
            \<and> py_getitem item method = Inr operation
            \<and> operation_tag operation = Inr tag
            \<and> parse_endpoint spec path method operation tag = Inr e
            \<and> append_endpoint tag e (ensure_tag tag (endpoints g)) = Inr eps
            \<and> parse_methods spec path item rest (g\<lparr>endpoints := eps\<rparr>) = Inr g')"
  using assms by (auto simp: bindE_def split: sum.splits if_splits)

lemma parse_methods_keeps:
  "parse_methods spec path item ms g = Inr g' \<Longrightarrow> listed (endpoints g) t x
   \<Longrightarrow> listed (endpoints g') t x"
proof (induction ms arbitrary: g)
  case Nil
  then show ?case by simp
next
  case (Cons m rest)
  from parse_methods_step[OF Cons.prems(1)] show ?case
  proof (elim disjE conjE exE)
    assume "parse_methods spec path item rest g = Inr g'"
    then show ?thesis using Cons.IH Cons.prems(2) by blast
  next
    fix operation tag e eps
    assume a: "append_endpoint tag e (ensure_tag tag (endpoints g)) = Inr eps"
      and r: "parse_methods spec path item rest (g\<lparr>endpoints := eps\<rparr>) = Inr g'"
    have "listed eps t x"
      using append_endpoint_keeps[OF a listed_ensure_tag[OF Cons.prems(2)]] .
    then show ?thesis using Cons.IH[OF r] by simp
  qed
qed

lemma parse_methods_adds:
  "parse_methods spec path item ms g = Inr g' \<Longrightarrow> method \<in> set ms
   \<Longrightarrow> py_in method item = Inr True
   \<Longrightarrow> \<exists>operation tag e. py_getitem item method = Inr operation
         \<and> operation_tag operation = Inr tag
         \<and> parse_endpoint spec path method operation tag = Inr e
         \<and> listed (endpoints g') tag e"
proof (induction ms arbitrary: g)
  case Nil
  then show ?case by simp
next
  case (Cons m rest)
  from parse_methods_step[OF Cons.prems(1)] show ?case
  proof (elim disjE conjE exE)
    assume f: "py_in m item = Inr False" and r: "parse_methods spec path item rest g = Inr g'"
    from f Cons.prems(3) have "method \<noteq> m" by auto
    with Cons.prems(2) have "method \<in> set rest" by simp
    from Cons.IH[OF r this Cons.prems(3)] show ?thesis .
  next
    fix operation tag e eps
    assume o: "py_getitem item m = Inr operation"
      and t: "operation_tag operation = Inr tag"
      and p: "parse_endpoint spec path m operation tag = Inr e"
      and a: "append_endpoint tag e (ensure_tag tag (endpoints g)) = Inr eps"
      and r: "parse_methods spec path item rest (g\<lparr>endpoints := eps\<rparr>) = Inr g'"
    show ?thesis
    proof (cases "method = m")
      case True
      have "listed (endpoints (g\<lparr>endpoints := eps\<rparr>)) tag e"
        using append_endpoint_adds[OF a] by simp
      then have "listed (endpoints g') tag e" using parse_methods_keeps[OF r] by blast
      with True o t p show ?thesis by blast
    next
      case False
      with Cons.prems(2) have "method \<in> set rest" by simp
      from Cons.IH[OF r this Cons.prems(3)] show ?thesis .
    qed
  qed
qed

lemma parse_paths_keeps:
  "parse_paths spec paths g = Inr g' \<Longrightarrow> listed (endpoints g) t x \<Longrightarrow> listed (endpoints g') t x"
proof (induction paths arbitrary: g)
  case Nil
  then show ?case by simp
next
  case (Cons kv paths)
  obtain p i where kv: "kv = (p, i)" by (cases kv)
  from Cons.prems(1) kv obtain g1 where
    m: "parse_methods spec p i http_methods g = Inr g1" and r: "parse_paths spec paths g1 = Inr g'"
    by (auto simp: bindE_def split: sum.splits)
  from parse_methods_keeps[OF m Cons.prems(2)] Cons.IH[OF r] show ?case by blast
qed

lemma parse_paths_adds:
  "parse_paths spec paths g = Inr g' \<Longrightarrow> (path, item) \<in> set paths
   \<Longrightarrow> method \<in> set http_methods \<Longrightarrow> py_in method item = Inr True
   \<Longrightarrow> \<exists>operation tag e. py_getitem item method = Inr operation
         \<and> operation_tag operation = Inr tag
         \<and> parse_endpoint spec path method operation tag = Inr e
         \<and> listed (endpoints g') tag e"
proof (induction paths arbitrary: g)
  case Nil
  then show ?case by simp
next
  case (Cons kv paths)
  obtain p i where kv: "kv = (p, i)" by (cases kv)
  from Cons.prems(1) kv obtain g1 where
    m: "parse_methods spec p i http_methods g = Inr g1" and r: "parse_paths spec paths g1 = Inr g'"
    by (auto simp: bindE_def split: sum.splits)
  show ?case
  proof (cases "(path, item) = (p, i)")
    case True
    then have m': "parse_methods spec path item http_methods g = Inr g1" using m by simp
    from parse_methods_adds[OF m' Cons.prems(3) Cons.prems(4)]
    obtain operation tag e where
      "py_getitem item method = Inr operation" "operation_tag operation = Inr tag"
      "parse_endpoint spec path method operation tag = Inr e" "listed (endpoints g1) tag e"
      by blast
    then show ?thesis using parse_paths_keeps[OF r] by blast
  next
    case False
    with Cons.prems(2) kv have "(path, item) \<in> set paths" by auto
    from Cons.IH[OF r this Cons.prems(3) Cons.prems(4)] show ?thesis .
  qed
qed

lemma parse_endpoint_fields:
  "parse_endpoint spec path method operation tag = Inr e \<Longrightarrow>
   ep_tag e = tag \<and> ep_path e = path \<and> ep_method e = upper method"
  by (auto simp: parse_endpoint_def bindE_def split: sum.splits)

lemma sanitize_name_default: "sanitize_name ''default'' = ''default''"
  by code_simp

lemma operation_tag_cases:
  "operation_tag operation = Inr tag \<Longrightarrow>
   \<exists>op. operation = JObj op
     \<and> (map_of op ''tags'' = None \<longrightarrow> tag = ''default'')
     \<and> (\<forall>t ts. map_of op ''tags'' = Some (JArr (JStr t # ts)) \<longrightarrow> tag = sanitize_name t)"
  by (cases operation)
     (auto simp: operation_tag_def bindE_def sanitize_name_default split: sum.splits)

text \<open>
  C4, as amended. Whenever the endpoint pass completes, then for every path of the
  document and every method among \<^verbatim>\<open>get\<close>, \<^verbatim>\<open>post\<close>, \<^verbatim>\<open>put\<close>, \<^verbatim>\<open>patch\<close>,
  \<^verbatim>\<open>delete\<close> present under that path, the operation is an object, and the
  EndpointInfo parsed from it is listed under its tag, with that path and the
  upper-cased method. The tag is \<^verbatim>\<open>"default"\<close> when the operation has no
  \<^verbatim>\<open>tags\<close> key, and the sanitized first tag when \<^verbatim>\<open>tags\<close> is a list that starts
  with a string.
\<close>

theorem endpoint_per_listed_method:
  assumes "parse_endpoints spec g = Inr g'"
    and "py_get spec ''paths'' (JObj []) = Inr (JObj paths)"
    and "(path, item) \<in> set paths"
    and "method \<in> set http_methods"
    and "py_in method item = Inr True"
  shows "\<exists>op tag e. py_getitem item method = Inr (JObj op)
       \<and> operation_tag (JObj op) = Inr tag
       \<and> parse_endpoint spec path method (JObj op) tag = Inr e
       \<and> listed (endpoints g') tag e
       \<and> ep_tag e = tag \<and> ep_path e = path \<and> ep_method e = upper method
       \<and> (map_of op ''tags'' = None \<longrightarrow> tag = ''default'')
       \<and> (\<forall>t ts. map_of op ''tags'' = Some (JArr (JStr t # ts)) \<longrightarrow> tag = sanitize_name t)"
proof -
  from assms(1,2) have "parse_paths spec paths g = Inr g'"
    by (simp add: parse_endpoints_def)
  from parse_paths_adds[OF this assms(3,4,5)] obtain operation tag e where
    o: "py_getitem item method = Inr operation" and t: "operation_tag operation = Inr tag"
    and p: "parse_endpoint spec path method operation tag = Inr e"
    and l: "listed (endpoints g') tag e"
    by blast
  from operation_tag_cases[OF t] obtain op where
    op: "operation = JObj op"
    and t1: "map_of op ''tags'' = None \<longrightarrow> tag = ''default''"
    and t2: "\<forall>t ts. map_of op ''tags'' = Some (JArr (JStr t # ts)) \<longrightarrow> tag = sanitize_name t"
    by (elim exE conjE)
  have f: "ep_tag e = tag \<and> ep_path e = path \<and> ep_method e = upper method"
    by (rule parse_endpoint_fields[OF p])
  have "py_getitem item method = Inr (JObj op)
       \<and> operation_tag (JObj op) = Inr tag
       \<and> parse_endpoint spec path method (JObj op) tag = Inr e
       \<and> listed (endpoints g') tag e
       \<and> ep_tag e = tag \<and> ep_path e = path \<and> ep_method e = upper method
       \<and> (map_of op ''tags'' = None \<longrightarrow> tag = ''default'')
       \<and> (\<forall>t ts. map_of op ''tags'' = Some (JArr (JStr t # ts)) \<longrightarrow> tag = sanitize_name t)"
    using o t p l f t1 t2 unfolding op by (intro conjI) simp_all
  then show ?thesis by (intro exI)
qed

lemma bindE_weak_cong: "m = m' \<Longrightarrow> bindE m f = bindE m' f"
  by simp

lemma ex_get_tag:
  "operation_tag (JObj [(''operationId'', JStr ''listSessions''),
                        (''tags'', JArr [JStr ''Chat Sessions''])]) = Inr ''chat__sessions''"
  by code_simp

lemma ex_post_tag:
  "operation_tag (JObj [(''operationId'', JStr ''createSession'')]) = Inr ''default''"
  by code_simp

lemma ex_get_parses:
  "parse_endpoint ex_api_spec ''/api/sessions'' ''get''
     (JObj [(''operationId'', JStr ''listSessions''), (''tags'', JArr [JStr ''Chat Sessions''])])
     ''chat__sessions'' = Inr ex_get_endpoint"
  unfolding ex_api_spec_def ex_sessions_item_def ex_get_endpoint_def
  by code_simp

lemma ex_post_parses:
  "parse_endpoint ex_api_spec ''/api/sessions'' ''post''
     (JObj [(''operationId'', JStr ''createSession'')]) ''default'' = Inr ex_post_endpoint"
  unfolding ex_api_spec_def ex_sessions_item_def ex_post_endpoint_def
  by code_simp

lemma ex_api_paths:
  "py_get ex_api_spec ''paths'' (JObj []) = Inr (JObj [(''/api/sessions'', ex_sessions_item)])"
  by (simp add: ex_api_spec_def)

lemma ex_api_parses: "parse_endpoints ex_api_spec init_generator = Inr ex_api_result"
  unfolding parse_endpoints_def ex_api_paths
  by (simp add: http_methods_def ex_sessions_item_def ensure_tag_def init_generator_def
        ex_api_result_def ex_get_tag ex_post_tag ex_get_parses ex_post_parses
      cong: bindE_weak_cong)

theorem endpoint_per_listed_method_witness:
  "parse_endpoints ex_api_spec init_generator = Inr ex_api_result
   \<and> py_get ex_api_spec ''paths'' (JObj []) = Inr (JObj [(''/api/sessions'', ex_sessions_item)])
   \<and> (''/api/sessions'', ex_sessions_item) \<in> set [(''/api/sessions'', ex_sessions_item)]
   \<and> ''post'' \<in> set http_methods
   \<and> py_in ''post'' ex_sessions_item = Inr True
   \<and> (\<exists>op tag e. py_getitem ex_sessions_item ''post'' = Inr (JObj op)
        \<and> operation_tag (JObj op) = Inr tag
        \<and> parse_endpoint ex_api_spec ''/api/sessions'' ''post'' (JObj op) tag = Inr e
        \<and> listed (endpoints ex_api_result) tag e
        \<and> ep_tag e = tag \<and> ep_path e = ''/api/sessions'' \<and> ep_method e = upper ''post''
        \<and> (map_of op ''tags'' = None \<longrightarrow> tag = ''default'')
        \<and> (\<forall>t ts. map_of op ''tags'' = Some (JArr (JStr t # ts)) \<longrightarrow> tag = sanitize_name t))
   \<and> listed (endpoints ex_api_result) ''default'' ex_post_endpoint
   \<and> listed (endpoints ex_api_result) ''chat__sessions'' ex_get_endpoint"
proof -
  have b: "py_get ex_api_spec ''paths'' (JObj []) = Inr (JObj [(''/api/sessions'', ex_sessions_item)])"
    by (simp add: ex_api_spec_def)
  have c: "(''/api/sessions'', ex_sessions_item) \<in> set [(''/api/sessions'', ex_sessions_item)]"
    by simp
  have d: "''post'' \<in> set http_methods"
    by (simp add: http_methods_def)
  have e: "py_in ''post'' ex_sessions_item = Inr True"
    by (simp add: ex_sessions_item_def)
  have l1: "listed (endpoints ex_api_result) ''default'' ex_post_endpoint"
    by (simp add: listed_def ex_api_result_def)
  have l2: "listed (endpoints ex_api_result) ''chat__sessions'' ex_get_endpoint"
    by (simp add: listed_def ex_api_result_def)
  note r = endpoint_per_listed_method [OF ex_api_parses b c d e]
  show ?thesis
    by (intro conjI) (rule ex_api_parses b c d e l1 l2 r)+
qed

text \<open>As the claim is worded, for every HTTP verb present under a path, it fails on a
  \<^verbatim>\<open>head\<close> operation: the loop visits five methods only, and nothing is produced.\<close>

theorem head_operation_counterexample:
  "py_in ''head'' (JObj [(''head'', JObj [(''operationId'', JStr ''ping'')])]) = Inr True
   \<and> parse_endpoints ex_head_spec init_generator
       = Inr \<lparr>endpoints = [], models = [], enums = [], entities = []\<rparr>"
  by (simp add: parse_endpoints_def ex_head_spec_def http_methods_def init_generator_def
      cong: bindE_weak_cong)

section \<open>Composition\<close>

text \<open>
  C1. On a schema whose \<^verbatim>\<open>allOf\<close> member declares the property \<^verbatim>\<open>id\<close> and lists
  it in its own \<^verbatim>\<open>required\<close>, the schema parser emits \<^verbatim>\<open>id\<close> first and the
  schema's own property after it, but with \<^verbatim>\<open>id\<close> not required and typed optional:
  the member's \<^verbatim>\<open>required\<close> list joins the set only after the member's properties
  have been parsed.
\<close>

theorem all_of_member_required_applied_late:
  "parse_schema ''Chat'' ex_all_of_schema init_generator
     = Inr \<lparr>endpoints = [],
            models =
              [\<lparr>m_name = ''Chat'', m_python_name = ''Chat'',
                m_properties =
                  [\<lparr>p_name = ''id'', p_python_name = ''id'', p_type_hint = ''str | None'',
                    p_required = JBool False, p_default = JNull, p_description = JStr [],
                    p_enum_values = JNull, p_is_body = False\<rparr>,
                   \<lparr>p_name = ''name'', p_python_name = ''name'', p_type_hint = ''str'',
                    p_required = JBool True, p_default = JNull, p_description = JStr [],
                    p_enum_values = JNull, p_is_body = False\<rparr>],
                m_description = JStr []\<rparr>],
            enums = [], entities = []\<rparr>"
  unfolding ex_all_of_schema_def init_generator_def by code_simp

section \<open>What an endpoint is made of\<close>

lemma parse_endpoint_parts:
  assumes "parse_endpoint spec path method0 (JObj op) tag = Inr e"
  shows "\<exists>params.
      py_iter (case map_of op ''parameters'' of None \<Rightarrow> JArr [] | Some ps \<Rightarrow> ps) = Inr params
      \<and> parse_params spec params [] = Inr (ep_parameters e)
      \<and> parse_body (JObj op) = Inr (ep_body e)
      \<and> parse_response_type (JObj op) = Inr (ep_response_type e)"
  using assms
  by (auto simp: parse_endpoint_def bindE_def split: sum.splits)

lemma parse_params_acc:
  "parse_params spec params acc = bindE (parse_params spec params []) (\<lambda>ps. Inr (acc @ ps))"
proof (induction params arbitrary: acc)
  case Nil
  show ?case by simp
next
  case (Cons param params)
  show ?case
    apply (simp add: bindE_assoc)
    apply (rule bindE_cong [OF refl])
    apply (subst Cons.IH)
    apply (subst (2) Cons.IH)
    apply (simp add: bindE_assoc)
    done
qed

lemma parse_params_all2:
  "parse_params spec params [] = Inr props \<longleftrightarrow>
     list_all2 (\<lambda>param prop. parse_param spec param = Inr prop) params props"
proof (induction params arbitrary: props)
  case Nil
  show ?case by auto
next
  case (Cons param params)
  show ?case
    apply (simp add: parse_params_acc [of spec params "[_]"])
    apply (simp add: list_all2_Cons1 Cons.IH [symmetric])
    apply (auto simp: bindE_def split: sum.splits)
    done
qed

lemma build_param_fields:
  assumes "build_param (JObj kvs) = Inr prop"
  shows "p_required prop =
       (if map_of kvs ''in'' = Some (JStr ''path'') then JBool True
        else case map_of kvs ''required'' of None \<Rightarrow> JBool False | Some v \<Rightarrow> v)
     \<and> map_of kvs ''name'' = Some (JStr (p_name prop))"
proof -
  from assms obtain nm where nm: "map_of kvs ''name'' = Some nm"
    by (auto simp: build_param_def bindE_def Let_def split: sum.splits option.splits)
  from assms nm obtain n where n: "nm = JStr n"
    by (cases nm) (auto simp: build_param_def bindE_def Let_def split: sum.splits option.splits)
  from assms nm n show ?thesis
    by (auto simp: build_param_def bindE_def Let_def split: sum.splits option.splits if_splits)
qed

lemma resolve_inline:
  "''$ref'' \<notin> fst ` set kvs \<Longrightarrow> resolve_param spec (JObj kvs) = Inr (JObj kvs)"
  by (simp add: resolve_param_def)

lemma path_parameter_required_link:
  assumes "parse_endpoint spec path method0 (JObj op) tag = Inr e"
    and "map_of op ''parameters'' = Some (JArr params)"
    and "i < length params"
  shows "length (ep_parameters e) = length params
     \<and> parse_param spec (params ! i) = Inr (ep_parameters e ! i)"
proof -
  from parse_endpoint_parts[OF assms(1)] assms(2)
  have "parse_params spec params [] = Inr (ep_parameters e)" by auto
  then have all2: "list_all2 (\<lambda>param prop. parse_param spec param = Inr prop)
      params (ep_parameters e)"
    by (simp add: parse_params_all2)
  then have len: "length (ep_parameters e) = length params"
    by (simp add: list_all2_lengthD)
  from all2 assms(3) have "parse_param spec (params ! i) = Inr (ep_parameters e ! i)"
    using list_all2_nthD[of "\<lambda>param prop. parse_param spec param = Inr prop" params "ep_parameters e" i]
    by simp
  with len show ?thesis by simp
qed

text \<open>
  C3. In every parsed endpoint there is one PropertyInfo per declared parameter, in
  order, each the result of parsing the parameter at its position. The parameter object
  it is built from (the parameter itself when it is no reference, else the target of the
  reference) carries the PropertyInfo's name, and the required flag is true if that
  object's \<^verbatim>\<open>in\<close> is \<^verbatim>\<open>"path"\<close>, whatever it declares under \<^verbatim>\<open>required\<close>;
  otherwise it is the declared \<^verbatim>\<open>required\<close> value, or false when none is declared.
\<close>

theorem path_parameter_required:
  assumes "parse_endpoint spec path method0 (JObj op) tag = Inr e"
    and "map_of op ''parameters'' = Some (JArr params)"
    and "i < length params"
  shows "length (ep_parameters e) = length params
     \<and> parse_param spec (params ! i) = Inr (ep_parameters e ! i)
     \<and> (\<exists>kvs. resolve_param spec (params ! i) = Inr (JObj kvs)
          \<and> p_required (ep_parameters e ! i) =
              (if map_of kvs ''in'' = Some (JStr ''path'') then JBool True
               else case map_of kvs ''required'' of None \<Rightarrow> JBool False | Some v \<Rightarrow> v)
          \<and> map_of kvs ''name'' = Some (JStr (p_name (ep_parameters e ! i))))
     \<and> (params ! i = JObj inline \<and> ''$ref'' \<notin> fst ` set inline \<longrightarrow>
          p_required (ep_parameters e ! i) =
              (if map_of inline ''in'' = Some (JStr ''path'') then JBool True
               else case map_of inline ''required'' of None \<Rightarrow> JBool False | Some v \<Rightarrow> v)
          \<and> map_of inline ''name'' = Some (JStr (p_name (ep_parameters e ! i))))"
proof -
  note link = path_parameter_required_link[OF assms]
  from link have len: "length (ep_parameters e) = length params" by simp
  from link have pp: "parse_param spec (params ! i) = Inr (ep_parameters e ! i)" by simp
  then obtain r where r: "resolve_param spec (params ! i) = Inr r"
    and b: "build_param r = Inr (ep_parameters e ! i)"
    by (auto simp: parse_param_def bindE_def split: sum.splits)
  from b obtain kvs where k: "r = JObj kvs"
    by (cases r) (simp_all add: build_param_def)
  note f = build_param_fields[OF b[unfolded k]]
  have ex: "\<exists>kvs. resolve_param spec (params ! i) = Inr (JObj kvs)
          \<and> p_required (ep_parameters e ! i) =
              (if map_of kvs ''in'' = Some (JStr ''path'') then JBool True
               else case map_of kvs ''required'' of None \<Rightarrow> JBool False | Some v \<Rightarrow> v)
          \<and> map_of kvs ''name'' = Some (JStr (p_name (ep_parameters e ! i)))"
    using r k f by blast
  have inl: "params ! i = JObj inline \<and> ''$ref'' \<notin> fst ` set inline \<longrightarrow>
          p_required (ep_parameters e ! i) =
              (if map_of inline ''in'' = Some (JStr ''path'') then JBool True
               else case map_of inline ''required'' of None \<Rightarrow> JBool False | Some v \<Rightarrow> v)
          \<and> map_of inline ''name'' = Some (JStr (p_name (ep_parameters e ! i)))"
  proof
    assume a: "params ! i = JObj inline \<and> ''$ref'' \<notin> fst ` set inline"
    then have "resolve_param spec (params ! i) = Inr (JObj inline)"
      by (simp add: resolve_inline)
    with r k have "kvs = inline" by simp
    with f show "p_required (ep_parameters e ! i) =
              (if map_of inline ''in'' = Some (JStr ''path'') then JBool True
               else case map_of inline ''required'' of None \<Rightarrow> JBool False | Some v \<Rightarrow> v)
          \<and> map_of inline ''name'' = Some (JStr (p_name (ep_parameters e ! i)))"
      by simp
  qed
  show ?thesis using len pp ex inl by (intro conjI)
qed

lemma ex_chat_parses:
  "parse_endpoint (JObj []) ''/api/chats/{chatId}'' ''get'' (JObj ex_chat_operation) ''chats''
     = Inr ex_chat_endpoint"
  unfolding ex_chat_operation_def ex_chat_endpoint_def ex_path_param_def ex_limit_param_def
    ex_path_prop_def ex_limit_prop_def
  by code_simp

theorem path_parameter_required_witness:
  "parse_endpoint (JObj []) ''/api/chats/{chatId}'' ''get'' (JObj ex_chat_operation) ''chats''
     = Inr ex_chat_endpoint
   \<and> map_of ex_chat_operation ''parameters'' = Some (JArr [ex_path_param, ex_limit_param])
   \<and> (0::nat) < length [ex_path_param, ex_limit_param]
   \<and> [ex_path_param, ex_limit_param] ! 0
       = JObj [(''name'', JStr ''chatId''), (''in'', JStr ''path''), (''required'', JBool False)]
   \<and> length (ep_parameters ex_chat_endpoint) = 2
   \<and> p_name (ep_parameters ex_chat_endpoint ! 0) = ''chatId''
   \<and> p_required (ep_parameters ex_chat_endpoint ! 0) = JBool True
   \<and> p_required (ep_parameters ex_chat_endpoint ! 1) = JBool False"
proof -
  let ?kvs = "[(''name'', JStr ''chatId''), (''in'', JStr ''path''), (''required'', JBool False)]"
  let ?lim = "[(''name'', JStr ''limit''), (''in'', JStr ''query''),
               (''schema'', JObj [(''type'', JStr ''integer'')])]"
  have a: "map_of ex_chat_operation ''parameters'' = Some (JArr [ex_path_param, ex_limit_param])"
    by (simp add: ex_chat_operation_def)
  have b: "(0::nat) < length [ex_path_param, ex_limit_param]" by simp
  have b1: "(1::nat) < length [ex_path_param, ex_limit_param]" by simp
  have c: "[ex_path_param, ex_limit_param] ! 0 = JObj ?kvs \<and> ''$ref'' \<notin> fst ` set ?kvs"
    by (simp add: ex_path_param_def)
  have c1: "[ex_path_param, ex_limit_param] ! 1 = JObj ?lim \<and> ''$ref'' \<notin> fst ` set ?lim"
    by (simp add: ex_limit_param_def)
  note t0 = path_parameter_required [OF ex_chat_parses a b, of ?kvs]
  note t1 = path_parameter_required [OF ex_chat_parses a b1, of ?lim]
  from t0 have len: "length (ep_parameters ex_chat_endpoint) = 2" by simp
  from t0 c have "p_required (ep_parameters ex_chat_endpoint ! 0) =
              (if map_of ?kvs ''in'' = Some (JStr ''path'') then JBool True
               else case map_of ?kvs ''required'' of None \<Rightarrow> JBool False | Some v \<Rightarrow> v)
          \<and> map_of ?kvs ''name'' = Some (JStr (p_name (ep_parameters ex_chat_endpoint ! 0)))"
    by blast
  then have r0: "p_required (ep_parameters ex_chat_endpoint ! 0) = JBool True"
    and n0: "p_name (ep_parameters ex_chat_endpoint ! 0) = ''chatId''"
    by simp_all
  from t1 c1 have "p_required (ep_parameters ex_chat_endpoint ! 1) =
              (if map_of ?lim ''in'' = Some (JStr ''path'') then JBool True
               else case map_of ?lim ''required'' of None \<Rightarrow> JBool False | Some v \<Rightarrow> v)"
    by blast
  then have r1: "p_required (ep_parameters ex_chat_endpoint ! 1) = JBool False"
    by simp
  show ?thesis using ex_chat_parses a b c len n0 r0 r1 by (intro conjI) simp_all
qed

section \<open>Response type\<close>

lemma py_in_map_of: "py_in k (JObj kvs) = Inr (map_of kvs k \<noteq> None)"
  by (simp add: map_of_eq_None_iff)

lemma json_schema_at_declared:
  assumes "json_schema_at responses status = Inr found"
  shows "found = declared_json_schema responses status"
proof (cases responses)
  case (JObj rs)
  show ?thesis
  proof (cases "map_of rs status")
    case None
    with assms JObj show ?thesis
      by (simp add: json_schema_at_def declared_json_schema_def py_in_map_of del: py_in.simps)
  next
    case (Some resp)
    show ?thesis
    proof (cases resp)
      case (JObj r)
      note resp = this
      show ?thesis
      proof (cases "case map_of r ''content'' of None \<Rightarrow> JObj [] | Some c \<Rightarrow> c")
        case (JObj c)
        with assms Some resp \<open>responses = JObj rs\<close> show ?thesis
          by (auto simp: json_schema_at_def declared_json_schema_def json_content_schema_def
                py_in_map_of bindE_def
              simp del: py_in.simps
              split: option.splits json.splits sum.splits if_splits)
      next
        case (JArr xs)
        with assms Some resp \<open>responses = JObj rs\<close> show ?thesis
          by (auto simp: json_schema_at_def declared_json_schema_def json_content_schema_def
                py_in_map_of bindE_def
              split: option.splits if_splits)
      next
        case (JStr x)
        with assms Some resp \<open>responses = JObj rs\<close> show ?thesis
          by (auto simp: json_schema_at_def declared_json_schema_def json_content_schema_def
                py_in_map_of bindE_def
              split: option.splits if_splits)
      qed (use assms Some resp \<open>responses = JObj rs\<close> in
            \<open>auto simp: json_schema_at_def declared_json_schema_def json_content_schema_def
                py_in_map_of bindE_def split: option.splits if_splits\<close>)
    qed (use assms Some \<open>responses = JObj rs\<close> in
          \<open>auto simp: json_schema_at_def py_in_map_of bindE_def simp del: py_in.simps\<close>)
  qed
qed (use assms in \<open>auto simp: json_schema_at_def declared_json_schema_def bindE_def
       split: if_splits\<close>)

lemma response_loop_spec:
  "response_loop responses candidates = Inr t \<Longrightarrow>
   response_type_spec responses candidates = Inr t"
proof (induction candidates)
  case Nil
  then show ?case by (simp add: response_type_spec_def)
next
  case (Cons status rest)
  from Cons.prems obtain found where f: "json_schema_at responses status = Inr found"
    by (auto simp: bindE_def split: sum.splits)
  have d: "declared_json_schema responses status = found"
    using json_schema_at_declared[OF f] by simp
  show ?case
  proof (cases found)
    case None
    with Cons.prems f have "response_loop responses rest = Inr t" by simp
    then have "response_type_spec responses rest = Inr t" by (rule Cons.IH)
    with d None show ?thesis by (simp add: response_type_spec_def)
  next
    case (Some schema)
    with Cons.prems f have "get_type_hint schema True = Inr t" by simp
    with d Some show ?thesis by (simp add: response_type_spec_def)
  qed
qed

text \<open>
  C2. The response type of every parsed endpoint is the one the rule gives for the
  operation's responses: the first of \<^verbatim>\<open>"200"\<close>, \<^verbatim>\<open>"201"\<close>, \<^verbatim>\<open>"default"\<close>, in that
  order, that is a key of the responses and has an \<^verbatim>\<open>application/json\<close> content
  entry decides, with that entry's schema (the empty schema when it has none) resolved
  with required = true. A \<^verbatim>\<open>"200"\<close> with JSON content decides whatever \<^verbatim>\<open>"201"\<close>
  and \<^verbatim>\<open>"default"\<close> hold, and when no candidate has JSON content the response type
  is \<^verbatim>\<open>Any\<close>.
\<close>

theorem response_type_priority:
  assumes "parse_endpoint spec path method0 (JObj op) tag = Inr e"
  shows "response_type_spec (case map_of op ''responses'' of None \<Rightarrow> JObj [] | Some r \<Rightarrow> r)
            [''200'', ''201'', ''default''] = Inr (ep_response_type e)
   \<and> (map_of op ''responses'' = Some (JObj rs)
        \<and> map_of rs ''200'' = Some (JObj r200)
        \<and> map_of r200 ''content'' = Some (JObj c200)
        \<and> map_of c200 ''application/json'' = Some (JObj m200)
      \<longrightarrow> get_type_hint (case map_of m200 ''schema'' of None \<Rightarrow> JObj [] | Some s \<Rightarrow> s) True
            = Inr (ep_response_type e))
   \<and> (declared_json_schema (case map_of op ''responses'' of None \<Rightarrow> JObj [] | Some r \<Rightarrow> r) ''200'' = None
        \<and> declared_json_schema (case map_of op ''responses'' of None \<Rightarrow> JObj [] | Some r \<Rightarrow> r) ''201'' = None
        \<and> declared_json_schema (case map_of op ''responses'' of None \<Rightarrow> JObj [] | Some r \<Rightarrow> r) ''default'' = None
      \<longrightarrow> ep_response_type e = ''Any'')"
proof -
  let ?R = "case map_of op ''responses'' of None \<Rightarrow> JObj [] | Some r \<Rightarrow> r"
  from parse_endpoint_parts[OF assms]
  have "parse_response_type (JObj op) = Inr (ep_response_type e)" by blast
  then have "response_loop ?R [''200'', ''201'', ''default''] = Inr (ep_response_type e)"
    by (simp add: parse_response_type_def)
  then have main: "response_type_spec ?R [''200'', ''201'', ''default''] = Inr (ep_response_type e)"
    by (rule response_loop_spec)
  have two: "map_of op ''responses'' = Some (JObj rs)
        \<and> map_of rs ''200'' = Some (JObj r200)
        \<and> map_of r200 ''content'' = Some (JObj c200)
        \<and> map_of c200 ''application/json'' = Some (JObj m200)
      \<longrightarrow> get_type_hint (case map_of m200 ''schema'' of None \<Rightarrow> JObj [] | Some s \<Rightarrow> s) True
            = Inr (ep_response_type e)"
  proof
    assume h: "map_of op ''responses'' = Some (JObj rs)
        \<and> map_of rs ''200'' = Some (JObj r200)
        \<and> map_of r200 ''content'' = Some (JObj c200)
        \<and> map_of c200 ''application/json'' = Some (JObj m200)"
    then have "declared_json_schema ?R ''200''
        = Some (case map_of m200 ''schema'' of None \<Rightarrow> JObj [] | Some s \<Rightarrow> s)"
      by (simp add: declared_json_schema_def json_content_schema_def)
    then have "response_type_spec ?R [''200'', ''201'', ''default'']
        = get_type_hint (case map_of m200 ''schema'' of None \<Rightarrow> JObj [] | Some s \<Rightarrow> s) True"
      by (simp add: response_type_spec_def)
    with main show "get_type_hint (case map_of m200 ''schema'' of None \<Rightarrow> JObj [] | Some s \<Rightarrow> s) True
            = Inr (ep_response_type e)"
      by simp
  qed
  have none: "declared_json_schema ?R ''200'' = None
        \<and> declared_json_schema ?R ''201'' = None
        \<and> declared_json_schema ?R ''default'' = None
      \<longrightarrow> ep_response_type e = ''Any''"
    using main by (auto simp: response_type_spec_def)
  show ?thesis using main two none by (intro conjI)
qed

lemma ex_session_parses:
  "parse_endpoint (JObj []) ''/api/sessions/start'' ''post''
     (JObj [(''operationId'', JStr ''startSession''), (''responses'', ex_responses)]) ''sessions''
     = Inr ex_session_endpoint"
  unfolding ex_session_endpoint_def ex_responses_def ex_json_response_def ex_schema_ref_def
  by code_simp

theorem response_type_priority_witness:
  "parse_endpoint (JObj []) ''/api/sessions/start'' ''post''
     (JObj [(''operationId'', JStr ''startSession''), (''responses'', ex_responses)]) ''sessions''
     = Inr ex_session_endpoint
   \<and> ex_responses =
       JObj [(''201'', ex_json_response (ex_schema_ref ''Created'')),
             (''200'', ex_json_response (ex_schema_ref ''Session''))]
   \<and> get_type_hint (ex_schema_ref ''Session'') True = Inr (ep_response_type ex_session_endpoint)
   \<and> ep_response_type ex_session_endpoint = ''Session''
   \<and> response_type_spec ex_responses [''200'', ''201'', ''default''] = Inr ''Session''"
proof -
  let ?op = "[(''operationId'', JStr ''startSession''), (''responses'', ex_responses)]"
  let ?rs = "[(''201'', ex_json_response (ex_schema_ref ''Created'')),
              (''200'', ex_json_response (ex_schema_ref ''Session''))]"
  let ?m = "[(''schema'', ex_schema_ref ''Session'')]"
  let ?c = "[(''application/json'', JObj ?m)]"
  let ?r = "[(''content'', JObj ?c)]"
  have h: "map_of ?op ''responses'' = Some (JObj ?rs)
        \<and> map_of ?rs ''200'' = Some (JObj ?r)
        \<and> map_of ?r ''content'' = Some (JObj ?c)
        \<and> map_of ?c ''application/json'' = Some (JObj ?m)"
    by (simp add: ex_responses_def ex_json_response_def)
  note t = response_type_priority [OF ex_session_parses, of ?rs ?r ?c ?m]
  from t h have "get_type_hint (case map_of ?m ''schema'' of None \<Rightarrow> JObj [] | Some s \<Rightarrow> s) True
      = Inr (ep_response_type ex_session_endpoint)"
    by blast
  then have g: "get_type_hint (ex_schema_ref ''Session'') True
      = Inr (ep_response_type ex_session_endpoint)"
    by simp
  from t have "response_type_spec (case map_of ?op ''responses'' of None \<Rightarrow> JObj [] | Some r \<Rightarrow> r)
      [''200'', ''201'', ''default''] = Inr (ep_response_type ex_session_endpoint)"
    by blast
  then have s: "response_type_spec ex_responses [''200'', ''201'', ''default'']
      = Inr (ep_response_type ex_session_endpoint)"
    by simp
  have v: "ep_response_type ex_session_endpoint = ''Session''"
    by (simp add: ex_session_endpoint_def)
  have d: "ex_responses = JObj ?rs" by (simp add: ex_responses_def)
  show ?thesis using ex_session_parses d g v s by (intro conjI) simp_all
qed

section \<open>References to parameters\<close>

lemma join_cons: "ps \<noteq> [] \<Longrightarrow> join sep (p # ps) = p @ sep @ join sep ps"
  by (cases ps) simp_all

lemma split_on_append_sep:
  "d \<notin> set p \<Longrightarrow> split_on d (p @ d # s) = p # split_on d s"
  by (induction p) (auto simp: split_on_nonempty split: list.splits)

lemma split_on_join:
  "list_all (\<lambda>p. d \<notin> set p) (p # ps) \<Longrightarrow> split_on d (join [d] (p # ps)) = p # ps"
proof (induction ps arbitrary: p)
  case Nil
  then show ?case by (simp add: split_on_no_sep)
next
  case (Cons q qs)
  then have "split_on d (join [d] (q # qs)) = q # qs" by simp
  moreover have "join [d] (p # q # qs) = p @ d # join [d] (q # qs)" by simp
  moreover have "d \<notin> set p" using Cons.prems by simp
  ultimately show ?case by (simp add: split_on_append_sep del: join.simps)
qed

lemma follow_at_path: "at_path x parts = Some t \<Longrightarrow> follow x parts = Inr t"
proof (induction parts arbitrary: x)
  case Nil
  then show ?case by simp
next
  case (Cons part parts)
  then show ?case by (cases x) (auto split: option.splits)
qed

lemma resolve_ref_at_path:
  assumes "map_of ref ''$ref'' = Some (JStr (join ''/'' (root # parts)))"
    and "list_all (\<lambda>p. CHR ''/'' \<notin> set p) (root # parts)"
    and "at_path spec parts = Some t"
  shows "resolve_param spec (JObj ref) = Inr t"
proof -
  have "split_on CHR ''/'' (join ''/'' (root # parts)) = root # parts"
    using split_on_join[OF assms(2)] by simp
  then show ?thesis
    using assms(1) follow_at_path[OF assms(3)]
    by (simp add: resolve_param_def map_of_in_keys)
qed

lemma parse_body_map_of:
  "map_of op' ''requestBody'' = map_of op ''requestBody'' \<Longrightarrow>
   parse_body (JObj op') = parse_body (JObj op)"
  by (simp add: parse_body_def py_in_map_of del: py_in.simps)

lemma parse_response_type_map_of:
  "map_of op' ''responses'' = map_of op ''responses'' \<Longrightarrow>
   parse_response_type (JObj op') = parse_response_type (JObj op)"
  by (simp add: parse_response_type_def)

lemma parse_endpoint_same_params:
  assumes "map_of op ''parameters'' = Some (JArr params)"
    and "map_of op' ''parameters'' = Some (JArr params')"
    and "parse_params spec params' [] = parse_params spec params []"
    and "\<forall>k. k \<noteq> ''parameters'' \<longrightarrow> map_of op' k = map_of op k"
  shows "parse_endpoint spec path method0 (JObj op') tag
       = parse_endpoint spec path method0 (JObj op) tag"
proof -
  have b: "parse_body (JObj op') = parse_body (JObj op)"
    by (rule parse_body_map_of) (simp add: assms(4))
  have r: "parse_response_type (JObj op') = parse_response_type (JObj op)"
    by (rule parse_response_type_map_of) (simp add: assms(4))
  have k: "map_of op' ''operationId'' = map_of op ''operationId''"
    "map_of op' ''summary'' = map_of op ''summary''"
    "map_of op' ''description'' = map_of op ''description''"
    using assms(4) by simp_all
  show ?thesis
    unfolding parse_endpoint_def
    by (simp only: py_get.simps bindE_simps py_iter.simps assms(1,2,3) b r k option.case)
qed

text \<open>
  C8. Let an operation parameter be a reference whose string is a root piece and the
  pieces of a path joined by \<^verbatim>\<open>/\<close>, and let that path lead, key by key from the
  document root, to a parameter object that is not itself a reference. Then the
  parameter parses to exactly what that object parses to (the same PropertyInfo or the
  same error); an operation with the reference at some position of its parameter list
  parses to exactly what the operation with the object written inline at that position
  parses to; and in a parsed endpoint the PropertyInfo at that position is the one the
  object gives.
\<close>

theorem ref_param_same_as_inline:
  assumes "map_of ref ''$ref'' = Some (JStr (join ''/'' (root # parts)))"
    and "list_all (\<lambda>p. CHR ''/'' \<notin> set p) (root # parts)"
    and "at_path spec parts = Some (JObj target)"
    and "''$ref'' \<notin> fst ` set target"
  shows "parse_param spec (JObj ref) = parse_param spec (JObj target)
   \<and> parse_param spec (JObj ref) = build_param (JObj target)
   \<and> (map_of op ''parameters'' = Some (JArr (pre @ JObj ref # post))
        \<and> map_of op' ''parameters'' = Some (JArr (pre @ JObj target # post))
        \<and> (\<forall>k. k \<noteq> ''parameters'' \<longrightarrow> map_of op' k = map_of op k)
      \<longrightarrow> parse_endpoint spec path method0 (JObj op) tag
            = parse_endpoint spec path method0 (JObj op') tag
          \<and> (\<forall>e. parse_endpoint spec path method0 (JObj op) tag = Inr e \<longrightarrow>
                length (ep_parameters e) = length pre + 1 + length post
                \<and> parse_param spec (JObj target) = Inr (ep_parameters e ! length pre)))"
proof -
  have res: "resolve_param spec (JObj ref) = Inr (JObj target)"
    by (rule resolve_ref_at_path[OF assms(1,2,3)])
  have inl: "resolve_param spec (JObj target) = Inr (JObj target)"
    using assms(4) by (simp add: resolve_param_def)
  have eq: "parse_param spec (JObj ref) = parse_param spec (JObj target)"
    using res inl by (simp add: parse_param_def)
  have bp: "parse_param spec (JObj ref) = build_param (JObj target)"
    using res by (simp add: parse_param_def)
  have ep: "map_of op ''parameters'' = Some (JArr (pre @ JObj ref # post))
        \<and> map_of op' ''parameters'' = Some (JArr (pre @ JObj target # post))
        \<and> (\<forall>k. k \<noteq> ''parameters'' \<longrightarrow> map_of op' k = map_of op k)
      \<longrightarrow> parse_endpoint spec path method0 (JObj op) tag
            = parse_endpoint spec path method0 (JObj op') tag
          \<and> (\<forall>e. parse_endpoint spec path method0 (JObj op) tag = Inr e \<longrightarrow>
                length (ep_parameters e) = length pre + 1 + length post
                \<and> parse_param spec (JObj target) = Inr (ep_parameters e ! length pre))"
  proof (intro impI conjI allI)
    assume h: "map_of op ''parameters'' = Some (JArr (pre @ JObj ref # post))
        \<and> map_of op' ''parameters'' = Some (JArr (pre @ JObj target # post))
        \<and> (\<forall>k. k \<noteq> ''parameters'' \<longrightarrow> map_of op' k = map_of op k)"
    have pl: "parse_params spec (pre @ JObj target # post) []
        = parse_params spec (pre @ JObj ref # post) []"
      using parse_params_cong_at[OF eq] by simp
    from h pl show "parse_endpoint spec path method0 (JObj op) tag
            = parse_endpoint spec path method0 (JObj op') tag"
      using parse_endpoint_same_params[of op "pre @ JObj ref # post" op'
          "pre @ JObj target # post" spec path method0 tag]
      by simp
    fix e
    assume pe: "parse_endpoint spec path method0 (JObj op) tag = Inr e"
    have i: "length pre < length (pre @ JObj ref # post)" by simp
    from h have m: "map_of op ''parameters'' = Some (JArr (pre @ JObj ref # post))" by simp
    note t = path_parameter_required_link[OF pe m i]
    from t show "length (ep_parameters e) = length pre + 1 + length post" by simp
    from t have "parse_param spec ((pre @ JObj ref # post) ! length pre)
        = Inr (ep_parameters e ! length pre)" by simp
    then show "parse_param spec (JObj target) = Inr (ep_parameters e ! length pre)"
      using eq by simp
  qed
  show ?thesis using eq bp ep by (intro conjI)
qed

lemma ex_ref_operation_parses:
  "parse_endpoint ex_spec_with_param ''/api/chats/{chatId}'' ''get'' (JObj ex_ref_operation)
     ''chats'' = Inr ex_ref_endpoint"
  unfolding ex_ref_operation_def ex_ref_endpoint_def ex_spec_with_param_def ex_path_param_def
    ex_ref_param_def ex_session_param_def ex_path_prop_def ex_session_prop_def
  by code_simp

theorem ref_param_same_as_inline_witness:
  "map_of [(''$ref'', JStr ''#/components/parameters/Session'')] ''$ref''
     = Some (JStr (join ''/'' (''#'' # [''components'', ''parameters'', ''Session''])))
   \<and> list_all (\<lambda>p. CHR ''/'' \<notin> set p) (''#'' # [''components'', ''parameters'', ''Session''])
   \<and> at_path ex_spec_with_param [''components'', ''parameters'', ''Session'']
       = Some (JObj ex_session_param)
   \<and> ''$ref'' \<notin> fst ` set ex_session_param
   \<and> parse_param ex_spec_with_param ex_ref_param = build_param (JObj ex_session_param)
   \<and> parse_endpoint ex_spec_with_param ''/api/chats/{chatId}'' ''get'' (JObj ex_ref_operation)
       ''chats'' = Inr ex_ref_endpoint
   \<and> parse_endpoint ex_spec_with_param ''/api/chats/{chatId}'' ''get'' (JObj ex_inline_operation)
       ''chats'' = Inr ex_ref_endpoint
   \<and> length (ep_parameters ex_ref_endpoint) = 2
   \<and> parse_param ex_spec_with_param (JObj ex_session_param) = Inr ex_session_prop"
proof -
  let ?ref = "[(''$ref'', JStr ''#/components/parameters/Session'')]"
  let ?parts = "[''components'', ''parameters'', ''Session'']"
  have a: "map_of ?ref ''$ref'' = Some (JStr (join ''/'' (''#'' # ?parts)))"
    by simp
  have b: "list_all (\<lambda>p. CHR ''/'' \<notin> set p) (''#'' # ?parts)"
    by simp
  have c: "at_path ex_spec_with_param ?parts = Some (JObj ex_session_param)"
    by (simp add: ex_spec_with_param_def)
  have d: "''$ref'' \<notin> fst ` set ex_session_param"
    by (simp add: ex_session_param_def)
  have h: "map_of ex_ref_operation ''parameters''
        = Some (JArr ([ex_path_param] @ JObj ?ref # []))
      \<and> map_of ex_inline_operation ''parameters''
        = Some (JArr ([ex_path_param] @ JObj ex_session_param # []))
      \<and> (\<forall>k. k \<noteq> ''parameters'' \<longrightarrow> map_of ex_inline_operation k = map_of ex_ref_operation k)"
    by (simp add: ex_ref_operation_def ex_inline_operation_def ex_ref_param_def)
  note t = ref_param_same_as_inline [OF a b c d,
      of ex_ref_operation "[ex_path_param]" "[]" ex_inline_operation
         "''/api/chats/{chatId}''" "''get''" "''chats''"]
  have p: "parse_param ex_spec_with_param ex_ref_param = build_param (JObj ex_session_param)"
    unfolding ex_ref_param_def by (rule t[THEN conjunct2, THEN conjunct1])
  from t[THEN conjunct2, THEN conjunct2] h have q: "parse_endpoint ex_spec_with_param ''/api/chats/{chatId}'' ''get''
        (JObj ex_ref_operation) ''chats''
      = parse_endpoint ex_spec_with_param ''/api/chats/{chatId}'' ''get''
        (JObj ex_inline_operation) ''chats''
      \<and> (\<forall>e. parse_endpoint ex_spec_with_param ''/api/chats/{chatId}'' ''get''
               (JObj ex_ref_operation) ''chats'' = Inr e \<longrightarrow>
             length (ep_parameters e) = length [ex_path_param] + 1 + length ([]::json list)
             \<and> parse_param ex_spec_with_param (JObj ex_session_param)
                 = Inr (ep_parameters e ! length [ex_path_param]))"
    by (rule mp)
  from q ex_ref_operation_parses
  have i: "parse_endpoint ex_spec_with_param ''/api/chats/{chatId}'' ''get''
        (JObj ex_inline_operation) ''chats'' = Inr ex_ref_endpoint"
    by simp
  from q ex_ref_operation_parses
  have l: "length (ep_parameters ex_ref_endpoint) = 2"
    and n: "parse_param ex_spec_with_param (JObj ex_session_param)
        = Inr (ep_parameters ex_ref_endpoint ! 1)"
    by simp_all
  from n have n': "parse_param ex_spec_with_param (JObj ex_session_param) = Inr ex_session_prop"
    by (simp add: ex_ref_endpoint_def)
  show ?thesis using a b c d p ex_ref_operation_parses i l n' by (intro conjI)
qed

section \<open>Derived class names and identifiers\<close>

text \<open>
  C9. On a schema named \<^verbatim>\<open>GroupInfo\<close> whose entity payload gives no
  \<^verbatim>\<open>class_name\<close>, the entity parser reads the schema's own property, but the class
  name it derives is \<^verbatim>\<open>Groupinfo\<close>: \<^verbatim>\<open>pascal_case\<close> upper-cases the first letter
  of each piece and lower-cases the rest of it, so a name that is in Pascal case
  already loses its inner capitals. From \<^verbatim>\<open>group_info\<close> it gives \<^verbatim>\<open>GroupInfo\<close>.
\<close>

theorem entity_fallback_name_loses_capitals:
  "parse_entity ''GroupInfo'' ex_entity_without_override init_generator
     = Inr \<lparr>endpoints = [], models = [], enums = [],
            entities =
              [\<lparr>ent_name = JStr ''Groupinfo'', ent_schema_name = ''GroupInfo'',
                ent_properties =
                  [\<lparr>p_name = ''id'', p_python_name = ''id'', p_type_hint = ''str | None'',
                    p_required = JBool False, p_default = JNull, p_description = JStr [],
                    p_enum_values = JNull, p_is_body = False\<rparr>],
                ent_description = JStr []\<rparr>]\<rparr>
   \<and> pascal_case ''GroupInfo'' = ''Groupinfo''
   \<and> pascal_case ''group_info'' = ''GroupInfo''
   \<and> pascal_case ''http-server_name'' = ''HttpServerName''"
  unfolding ex_entity_without_override_def init_generator_def by code_simp

text \<open>
  C5. On a lone hyphen \<^verbatim>\<open>sanitize_name\<close> returns the empty string: the hyphen
  survives the removal of unwanted characters and the stripping of white space, so the
  fallback \<^verbatim>\<open>"default"\<close> is not substituted, and snake-casing then turns the
  hyphen into an underscore and strips it. An operation tagged \<^verbatim>\<open>"-"\<close> is filed
  under the empty tag, and a property named \<^verbatim>\<open>"-"\<close> gets the empty identifier.
\<close>

theorem hyphen_gives_empty_identifier:
  "sanitize_name ''-'' = []
   \<and> operation_tag (JObj [(''operationId'', JStr ''ping''), (''tags'', JArr [JStr ''-''])])
       = Inr []
   \<and> parse_property ''-'' (JObj [(''type'', JStr ''string'')]) True
       = Inr \<lparr>p_name = ''-'', p_python_name = [], p_type_hint = ''str'',
              p_required = JBool True, p_default = JNull, p_description = JStr [],
              p_enum_values = JNull, p_is_body = False\<rparr>
   \<and> sanitize_name '' '' = ''default''"
  by code_simp

end
